theory Spec2Isabelle
  imports Complex_Main
begin

section \<open>Common data: errors, arrays, incidence arrays\<close>

text \<open>
  Every exception the two modules can raise is a value. An assertion keeps the
  information of its message: \<open>ShareEdge coedge_index mating_coedge_index edge_index\<close>
  is the assertion of \<^verbatim>\<open>incidence_arrays.py\<close> line 81, the other four are the
  validation assertions of lines 101 to 104, \<open>SendersReceivers\<close> is the assertion of
  \<^verbatim>\<open>_create_graph\<close>.
\<close>

datatype assertion =
    ShareEdge nat nat nat
  | NextWithoutNext
  | MateWithoutMate
  | FaceRelation
  | EdgeRelation
  | SendersReceivers

datatype error =
    KeyError
  | IndexError
  | TypeError
  | AttributeError
  | AssertionError assertion

text \<open>
  The incidence arrays are \<^verbatim>\<open>np.uint32\<close> arrays: their entries are natural
  numbers, and an index read from them is never negative. Entries are modelled as
  \<open>nat\<close>; every value stored is an id handed out by the entity mapper or the coedge
  count itself, far below \<open>2 ^ 32\<close> for any body that fits in memory.
\<close>

record IncidenceArrays =
  next' :: "nat list"
  mate :: "nat list"
  coedge_to_face :: "nat list"
  coedge_to_edge :: "nat list"

text \<open>\<^verbatim>\<open>a[i]\<close> and \<^verbatim>\<open>a[i] = v\<close> on a one-dimensional array raise IndexError out of range.\<close>

definition getitem :: "'a list \<Rightarrow> nat \<Rightarrow> error + 'a" where
  "getitem xs i = (if i < length xs then Inr (xs ! i) else Inl IndexError)"

definition setitem :: "'a list \<Rightarrow> nat \<Rightarrow> 'a \<Rightarrow> error + 'a list" where
  "setitem xs i v = (if i < length xs then Inr (xs[i := v]) else Inl IndexError)"

definition arange :: "nat \<Rightarrow> nat list" where
  "arange n = [0..<n]"

text \<open>Sequencing: a statement that raised ends the function with that error.\<close>

definition bind_err :: "error + 'a \<Rightarrow> ('a \<Rightarrow> error + 'b) \<Rightarrow> error + 'b" where
  "bind_err m f = (case m of Inl e \<Rightarrow> Inl e | Inr x \<Rightarrow> f x)"

text \<open>
  Attribute access. \<^verbatim>\<open>simple_edge\<close> reads its argument \<^verbatim>\<open>incidence_arrays\<close> by
  attribute name, so the argument is modelled as the object Python sees: its attributes
  by name. A name the object does not have raises AttributeError. The named tuple
  \<^verbatim>\<open>IncidenceArrays\<close> has exactly the four fields of its class body.
\<close>

type_synonym pyobject = "(string \<times> nat list) list"

definition getattr :: "pyobject \<Rightarrow> string \<Rightarrow> error + nat list" where
  "getattr obj name = (case map_of obj name of None \<Rightarrow> Inl AttributeError | Some v \<Rightarrow> Inr v)"

definition IncidenceArrays_object :: "IncidenceArrays \<Rightarrow> pyobject" where
  "IncidenceArrays_object ia =
     [(''next'', next' ia), (''mate'', mate ia),
      (''coedge_to_face'', coedge_to_face ia), (''coedge_to_edge'', coedge_to_edge ia)]"

section \<open>The graph assembler (configurations.py)\<close>

type_synonym Edges = "(nat \<times> nat) list"

definition add_undirect_edge :: "nat \<Rightarrow> nat \<Rightarrow> Edges \<Rightarrow> Edges" where
  "add_undirect_edge from_n to_n edges = (edges @ [(from_n, to_n)]) @ [(to_n, from_n)]"

text \<open>
  The five rules \<^verbatim>\<open>_f\<close>, \<^verbatim>\<open>_mf\<close>, \<^verbatim>\<open>_e\<close>, \<^verbatim>\<open>_i\<close>, \<^verbatim>\<open>_m\<close>. Each is a loop that
  appends to the list \<^verbatim>\<open>edges\<close>; the loop is a recursion over the array it
  enumerates, the first argument being the running index of \<^verbatim>\<open>enumerate\<close>.
\<close>

fun f_loop :: "nat \<Rightarrow> nat list \<Rightarrow> nat list \<Rightarrow> nat list \<Rightarrow> Edges \<Rightarrow> error + Edges" where
  "f_loop coedge_ix [] coedge_to_node face_to_node edges = Inr edges"
| "f_loop coedge_ix (face_ix # rest) coedge_to_node face_to_node edges =
     bind_err (getitem coedge_to_node coedge_ix) (\<lambda>coedge.
     bind_err (getitem face_to_node face_ix) (\<lambda>face.
       f_loop (Suc coedge_ix) rest coedge_to_node face_to_node
         (add_undirect_edge coedge face edges)))"

definition kernel_f :: "nat list \<Rightarrow> nat list \<Rightarrow> nat list \<Rightarrow> Edges \<Rightarrow> error + Edges" where
  "kernel_f c2f coedge_to_node face_to_node edges =
     f_loop 0 c2f coedge_to_node face_to_node edges"

fun mf_loop :: "nat \<Rightarrow> nat list \<Rightarrow> nat list \<Rightarrow> nat list \<Rightarrow> nat list \<Rightarrow> nat list \<Rightarrow> Edges
    \<Rightarrow> error + Edges" where
  "mf_loop coedge_ix [] coedge_to_mate c2f coedge_to_node face_to_node edges = Inr edges"
| "mf_loop coedge_ix (x # rest) coedge_to_mate c2f coedge_to_node face_to_node edges =
     bind_err (getitem coedge_to_node coedge_ix) (\<lambda>coedge.
     bind_err (getitem coedge_to_mate coedge_ix) (\<lambda>mate_ix.
     bind_err (getitem c2f mate_ix) (\<lambda>mate_face_ix.
     bind_err (getitem face_to_node mate_face_ix) (\<lambda>mate_face.
       mf_loop (Suc coedge_ix) rest coedge_to_mate c2f coedge_to_node face_to_node
         (add_undirect_edge coedge mate_face edges)))))"

definition kernel_mf :: "nat list \<Rightarrow> nat list \<Rightarrow> nat list \<Rightarrow> nat list \<Rightarrow> Edges
    \<Rightarrow> error + Edges" where
  "kernel_mf coedge_to_mate c2f coedge_to_node face_to_node edges =
     mf_loop 0 c2f coedge_to_mate c2f coedge_to_node face_to_node edges"

fun e_loop :: "nat \<Rightarrow> nat list \<Rightarrow> nat list \<Rightarrow> nat list \<Rightarrow> Edges \<Rightarrow> error + Edges" where
  "e_loop coedge_ix [] coedge_to_node edge_to_node edges = Inr edges"
| "e_loop coedge_ix (edge_ix # rest) coedge_to_node edge_to_node edges =
     bind_err (getitem coedge_to_node coedge_ix) (\<lambda>coedge.
     bind_err (getitem edge_to_node edge_ix) (\<lambda>edge.
       e_loop (Suc coedge_ix) rest coedge_to_node edge_to_node
         (add_undirect_edge coedge edge edges)))"

definition kernel_e :: "nat list \<Rightarrow> nat list \<Rightarrow> nat list \<Rightarrow> Edges \<Rightarrow> error + Edges" where
  "kernel_e c2e coedge_to_node edge_to_node edges =
     e_loop 0 c2e coedge_to_node edge_to_node edges"

fun kernel_i :: "nat list \<Rightarrow> nat list \<Rightarrow> Edges \<Rightarrow> error + Edges" where
  "kernel_i [] coedge_to_node edges = Inr edges"
| "kernel_i (coedge_ix # rest) coedge_to_node edges =
     bind_err (getitem coedge_to_node coedge_ix) (\<lambda>coedge.
       kernel_i rest coedge_to_node (edges @ [(coedge, coedge)]))"

fun m_loop :: "nat \<Rightarrow> nat list \<Rightarrow> nat list \<Rightarrow> Edges \<Rightarrow> error + Edges" where
  "m_loop coedge_ix [] coedge_to_node edges = Inr edges"
| "m_loop coedge_ix (mate_coedge_ix # rest) coedge_to_node edges =
     bind_err (getitem coedge_to_node coedge_ix) (\<lambda>coedge.
     bind_err (getitem coedge_to_node mate_coedge_ix) (\<lambda>mate_coedge.
       m_loop (Suc coedge_ix) rest coedge_to_node (edges @ [(coedge, mate_coedge)])))"

definition kernel_m :: "nat list \<Rightarrow> nat list \<Rightarrow> Edges \<Rightarrow> error + Edges" where
  "kernel_m coedge_to_mate coedge_to_node edges = m_loop 0 coedge_to_mate coedge_to_node edges"

text \<open>
  The graph is the dict that \<^verbatim>\<open>_create_graph\<close> returns: five keys, three of them the
  feature matrices as they came in (a matrix is the list of its rows; the assembler only
  reads the number of rows), two of them the arrays of node ids.
\<close>

datatype 'a ndarray = Features "'a list list" | Ids "nat list"

type_synonym 'a graph = "(string \<times> 'a ndarray) list"

fun senders_receivers :: "Edges \<Rightarrow> nat list \<Rightarrow> nat list \<Rightarrow> nat list \<times> nat list" where
  "senders_receivers [] senders receivers = (senders, receivers)"
| "senders_receivers ((f, t) # rest) senders receivers =
     senders_receivers rest (senders @ [f]) (receivers @ [t])"

definition create_graph :: "'a list list \<Rightarrow> 'a list list \<Rightarrow> 'a list list \<Rightarrow> Edges
    \<Rightarrow> error + 'a graph" where
  "create_graph face_features edge_features coedge_features edges =
     (case senders_receivers edges [] [] of (senders, receivers) \<Rightarrow>
        if length senders \<noteq> length receivers then Inl (AssertionError SendersReceivers)
        else Inr [(''face_features'', Features face_features),
                  (''edge_features'', Features edge_features),
                  (''coedge_features'', Features coedge_features),
                  (''senders'', Ids senders),
                  (''receivers'', Ids receivers)])"

text \<open>
  \<^verbatim>\<open>simple_edge\<close>: the attribute reads happen where the source has them, as the
  arguments of each call are evaluated, so an earlier rule can fail before a later
  attribute is looked up.
\<close>

definition simple_edge :: "'a list list \<Rightarrow> 'a list list \<Rightarrow> 'a list list \<Rightarrow> pyobject
    \<Rightarrow> error + 'a graph" where
  "simple_edge face_features edge_features coedge_features incidence_arrays =
     (let faces_num = length face_features;
          edges_num = length edge_features;
          coedges_num = length coedge_features;
          face_to_node = arange faces_num;
          edge_to_node = map (\<lambda>i. i + faces_num) (arange edges_num);
          coedge_to_node = map (\<lambda>i. i + faces_num + edges_num) (arange coedges_num)
      in
      bind_err (getattr incidence_arrays ''coedge_to_face'') (\<lambda>c2f.
      bind_err (kernel_f c2f coedge_to_node face_to_node []) (\<lambda>edges1.
      bind_err (getattr incidence_arrays ''coedge_to_mate'') (\<lambda>c2m.
      bind_err (getattr incidence_arrays ''coedge_to_face'') (\<lambda>c2f'.
      bind_err (kernel_mf c2m c2f' coedge_to_node face_to_node edges1) (\<lambda>edges2.
      bind_err (getattr incidence_arrays ''coedge_to_edge'') (\<lambda>c2e.
      bind_err (kernel_e c2e coedge_to_node edge_to_node edges2) (\<lambda>edges3.
      bind_err (kernel_i (arange coedges_num) coedge_to_node edges3) (\<lambda>edges4.
      bind_err (getattr incidence_arrays ''coedge_to_mate'') (\<lambda>c2m'.
      bind_err (kernel_m c2m' coedge_to_node edges4) (\<lambda>edges5.
        create_graph face_features edge_features coedge_features edges5)))))))))))"

text \<open>
  Closed forms of what the five rules do, used to state the theorems. \<open>raw_edges\<close>
  lists the pairs in terms of the three node arrays of \<^verbatim>\<open>simple_edge\<close>,
  \<open>flat_edges\<close> in the flat id space (faces first, edges offset by \<open>F\<close>, coedges
  by \<open>F + E\<close>), each rule ranging over the array it enumerates. \<open>accepts\<close> says
  that no index read by the rules is out of range.
\<close>

definition raw_edges :: "nat list \<Rightarrow> nat list \<Rightarrow> nat list \<Rightarrow> nat list \<Rightarrow> nat list \<Rightarrow> nat list
    \<Rightarrow> Edges" where
  "raw_edges cn fn en c2f m c2e =
     concat (map (\<lambda>i. [(cn ! i, fn ! (c2f ! i)), (fn ! (c2f ! i), cn ! i)]) [0..<length c2f]) @
     concat (map (\<lambda>i. [(cn ! i, fn ! (c2f ! (m ! i))), (fn ! (c2f ! (m ! i)), cn ! i)])
               [0..<length c2f]) @
     concat (map (\<lambda>i. [(cn ! i, en ! (c2e ! i)), (en ! (c2e ! i), cn ! i)]) [0..<length c2e]) @
     map (\<lambda>i. (cn ! i, cn ! i)) [0..<length cn] @
     map (\<lambda>i. (cn ! i, cn ! (m ! i))) [0..<length m]"

definition flat_edges :: "nat \<Rightarrow> nat \<Rightarrow> nat \<Rightarrow> nat list \<Rightarrow> nat list \<Rightarrow> nat list \<Rightarrow> Edges" where
  "flat_edges F E C c2f m c2e =
     concat (map (\<lambda>c. [(c + F + E, c2f ! c), (c2f ! c, c + F + E)]) [0..<length c2f]) @
     concat (map (\<lambda>c. [(c + F + E, c2f ! (m ! c)), (c2f ! (m ! c), c + F + E)])
               [0..<length c2f]) @
     concat (map (\<lambda>c. [(c + F + E, c2e ! c + F), (c2e ! c + F, c + F + E)]) [0..<length c2e]) @
     map (\<lambda>c. (c + F + E, c + F + E)) [0..<C] @
     map (\<lambda>c. (c + F + E, m ! c + F + E)) [0..<length m]"

definition accepts :: "nat \<Rightarrow> nat \<Rightarrow> nat \<Rightarrow> nat list \<Rightarrow> nat list \<Rightarrow> nat list \<Rightarrow> bool" where
  "accepts F E C c2f m c2e \<longleftrightarrow>
     list_all (\<lambda>i. i < C \<and> c2f ! i < F \<and> i < length m \<and> m ! i < length c2f
                  \<and> c2f ! (m ! i) < F) [0..<length c2f] \<and>
     list_all (\<lambda>i. i < C \<and> c2e ! i < E) [0..<length c2e] \<and>
     list_all (\<lambda>i. i < C \<and> m ! i < C) [0..<length m]"

text \<open>
  The emission order in the words of the specification, for arrays of the length \<open>C\<close>
  of the coedge feature matrix: the coedge and owning-face pairs for coedges \<open>0\<close> to
  \<open>C - 1\<close>, each followed by its mirror, then the mate-face pairs, then the edge
  pairs, then the self-loops, then the one-way edges to the mates.
\<close>

definition emission_order :: "nat \<Rightarrow> nat \<Rightarrow> nat \<Rightarrow> nat list \<Rightarrow> nat list \<Rightarrow> nat list \<Rightarrow> Edges" where
  "emission_order F E C c2f m c2e =
     concat (map (\<lambda>c. [(F + E + c, c2f ! c), (c2f ! c, F + E + c)]) [0..<C]) @
     concat (map (\<lambda>c. [(F + E + c, c2f ! (m ! c)), (c2f ! (m ! c), F + E + c)]) [0..<C]) @
     concat (map (\<lambda>c. [(F + E + c, F + c2e ! c), (F + c2e ! c, F + E + c)]) [0..<C]) @
     map (\<lambda>c. (F + E + c, F + E + c)) [0..<C] @
     map (\<lambda>c. (F + E + c, F + E + m ! c)) [0..<C]"

section \<open>The incidence builder (incidence_arrays.py)\<close>

text \<open>
  The body and the entity mapper belong to the geometry library, which is not part of
  the repository: they are parameters. A wire is the list of coedges that
  \<^verbatim>\<open>wire.ordered_edges()\<close> yields; \<open>reversed_edge\<close> is \<^verbatim>\<open>coedge.reversed_edge()\<close>.
  The mapper's \<^verbatim>\<open>oriented_edge_map\<close> is a dict from coedges to ids, kept as an
  association list whose length is \<^verbatim>\<open>len(entity_mapper.oriented_edge_map)\<close>; the edge
  and face lookups are partial functions, a missing key raising KeyError.

  Nothing is assumed of these parameters in the model. Where a theorem below needs a
  property of the library it says so as a hypothesis: that the ids of
  \<^verbatim>\<open>oriented_edge_map\<close> are pairwise distinct, that reversing a coedge twice gives
  the coedge back, that the edge lookup does not depend on the orientation (line 66 of the
  source: a coedge is an edge with additional data), or that face and edge ids lie below
  the face and edge counts.
\<close>

record ('c, 'f) Compound =
  wires :: "'c list list"
  faces :: "'f list"
  wires_from_face :: "'f \<Rightarrow> 'c list list"
  reversed_edge :: "'c \<Rightarrow> 'c"

record ('c, 'f) EntityMapper =
  oriented_edge_map :: "('c \<times> nat) list"
  edge_map :: "'c \<Rightarrow> nat option"
  face_map :: "'f \<Rightarrow> nat option"

definition lookup :: "'a option \<Rightarrow> error + 'a" where
  "lookup r = (case r of None \<Rightarrow> Inl KeyError | Some v \<Rightarrow> Inr v)"

definition oriented_edge_index :: "('c, 'f) EntityMapper \<Rightarrow> 'c \<Rightarrow> error + nat" where
  "oriented_edge_index em coedge = lookup (map_of (oriented_edge_map em) coedge)"

definition oriented_edge_exists :: "('c, 'f) EntityMapper \<Rightarrow> 'c \<Rightarrow> bool" where
  "oriented_edge_exists em coedge = (map_of (oriented_edge_map em) coedge \<noteq> None)"

definition edge_index :: "('c, 'f) EntityMapper \<Rightarrow> 'c \<Rightarrow> error + nat" where
  "edge_index em coedge = lookup (edge_map em coedge)"

definition face_index :: "('c, 'f) EntityMapper \<Rightarrow> 'f \<Rightarrow> error + nat" where
  "face_index em face = lookup (face_map em face)"

definition coedges_num :: "('c, 'f) EntityMapper \<Rightarrow> nat" where
  "coedges_num em = length (oriented_edge_map em)"

text \<open>
  \<^verbatim>\<open>next_[previous_coedge_index] = ...\<close> with variables that start as \<^verbatim>\<open>None\<close>:
  storing \<^verbatim>\<open>None\<close> in a uint32 array raises TypeError (this is what an empty wire
  does at line 92); the index \<^verbatim>\<open>None\<close> with a number would address the whole array,
  a case the loop never reaches since both variables are set together.
\<close>

fun np_setitem :: "nat list \<Rightarrow> nat option \<Rightarrow> nat option \<Rightarrow> error + nat list" where
  "np_setitem xs ix None = Inl TypeError"
| "np_setitem xs None (Some v) = Inr (replicate (length xs) v)"
| "np_setitem xs (Some i) (Some v) = setitem xs i v"

type_synonym wire_state = "nat option \<times> nat option \<times> IncidenceArrays"

text \<open>
  The body of the inner loop of lines 64 to 89, for one coedge. The state is
  \<^verbatim>\<open>first_coedge_index\<close>, \<^verbatim>\<open>previous_coedge_index\<close> and the arrays.
\<close>

definition coedge_step :: "('c, 'f) Compound \<Rightarrow> ('c, 'f) EntityMapper \<Rightarrow> 'c \<Rightarrow> wire_state
    \<Rightarrow> error + wire_state" where
  "coedge_step body em coedge s =
     (case s of (first_coedge_index, previous_coedge_index, ia) \<Rightarrow>
      bind_err (oriented_edge_index em coedge) (\<lambda>coedge_index.
      bind_err (edge_index em coedge) (\<lambda>edge_ix.
      bind_err (if oriented_edge_exists em (reversed_edge body coedge)
                then oriented_edge_index em (reversed_edge body coedge)
                else Inr coedge_index) (\<lambda>mating_coedge_index.
      bind_err (setitem (mate ia) coedge_index mating_coedge_index) (\<lambda>mate1.
      bind_err (edge_index em (reversed_edge body coedge)) (\<lambda>mate_edge_ix.
      if edge_ix \<noteq> mate_edge_ix
      then Inl (AssertionError (ShareEdge coedge_index mating_coedge_index edge_ix))
      else
      bind_err (setitem (coedge_to_edge ia) coedge_index edge_ix) (\<lambda>c2e1.
      bind_err (setitem c2e1 mating_coedge_index edge_ix) (\<lambda>c2e2.
      bind_err (case first_coedge_index of
                  None \<Rightarrow> Inr (next' ia)
                | Some f \<Rightarrow> np_setitem (next' ia) previous_coedge_index (Some coedge_index))
        (\<lambda>next1.
      Inr (case first_coedge_index of None \<Rightarrow> Some coedge_index | Some f \<Rightarrow> Some f,
           Some coedge_index,
           ia\<lparr>next' := next1, mate := mate1, coedge_to_edge := c2e2\<rparr>))))))))))"

fun wire_loop :: "('c, 'f) Compound \<Rightarrow> ('c, 'f) EntityMapper \<Rightarrow> 'c list \<Rightarrow> wire_state
    \<Rightarrow> error + wire_state" where
  "wire_loop body em [] s = Inr s"
| "wire_loop body em (coedge # rest) s =
     bind_err (coedge_step body em coedge s) (wire_loop body em rest)"

text \<open>One wire: the inner loop, then line 92 closes the loop.\<close>

definition wire_body :: "('c, 'f) Compound \<Rightarrow> ('c, 'f) EntityMapper \<Rightarrow> 'c list
    \<Rightarrow> IncidenceArrays \<Rightarrow> error + IncidenceArrays" where
  "wire_body body em wire ia =
     bind_err (wire_loop body em wire (None, None, ia)) (\<lambda>s.
       case s of (first_coedge_index, previous_coedge_index, ia1) \<Rightarrow>
       bind_err (np_setitem (next' ia1) previous_coedge_index first_coedge_index) (\<lambda>next1.
       Inr (ia1\<lparr>next' := next1\<rparr>)))"

fun wires_loop :: "('c, 'f) Compound \<Rightarrow> ('c, 'f) EntityMapper \<Rightarrow> 'c list list
    \<Rightarrow> IncidenceArrays \<Rightarrow> error + IncidenceArrays" where
  "wires_loop body em [] ia = Inr ia"
| "wires_loop body em (wire # rest) ia =
     bind_err (wire_body body em wire ia) (wires_loop body em rest)"

text \<open>The loops of lines 94 to 99.\<close>

fun face_coedges_loop :: "('c, 'f) EntityMapper \<Rightarrow> nat \<Rightarrow> 'c list \<Rightarrow> nat list
    \<Rightarrow> error + nat list" where
  "face_coedges_loop em face_ix [] c2f = Inr c2f"
| "face_coedges_loop em face_ix (coedge # rest) c2f =
     bind_err (oriented_edge_index em coedge) (\<lambda>coedge_index.
     bind_err (setitem c2f coedge_index face_ix) (\<lambda>c2f1.
       face_coedges_loop em face_ix rest c2f1))"

fun face_wires_loop :: "('c, 'f) EntityMapper \<Rightarrow> nat \<Rightarrow> 'c list list \<Rightarrow> nat list
    \<Rightarrow> error + nat list" where
  "face_wires_loop em face_ix [] c2f = Inr c2f"
| "face_wires_loop em face_ix (wire # rest) c2f =
     bind_err (face_coedges_loop em face_ix wire c2f) (face_wires_loop em face_ix rest)"

fun faces_loop :: "('c, 'f) Compound \<Rightarrow> ('c, 'f) EntityMapper \<Rightarrow> 'f list \<Rightarrow> nat list
    \<Rightarrow> error + nat list" where
  "faces_loop body em [] c2f = Inr c2f"
| "faces_loop body em (face # rest) c2f =
     bind_err (face_index em face) (\<lambda>face_ix.
     bind_err (face_wires_loop em face_ix (wires_from_face body face) c2f)
       (faces_loop body em rest))"

text \<open>
  Lines 46 to 99: the four arrays start at the impossible value \<open>coedges_num\<close> and
  are filled by the two loops.
\<close>

definition initializer :: "nat \<Rightarrow> nat list" where
  "initializer n = replicate n n"

definition fill_arrays :: "('c, 'f) Compound \<Rightarrow> ('c, 'f) EntityMapper
    \<Rightarrow> error + IncidenceArrays" where
  "fill_arrays body em =
     bind_err (wires_loop body em (wires body)
         \<lparr>next' = initializer (coedges_num em), mate = initializer (coedges_num em),
          coedge_to_face = initializer (coedges_num em),
          coedge_to_edge = initializer (coedges_num em)\<rparr>) (\<lambda>ia.
     bind_err (faces_loop body em (faces body) (coedge_to_face ia)) (\<lambda>c2f.
       Inr (ia\<lparr>coedge_to_face := c2f\<rparr>)))"

text \<open>Lines 101 to 104: the four assertions, in their order.\<close>

definition validate :: "nat \<Rightarrow> IncidenceArrays \<Rightarrow> error + IncidenceArrays" where
  "validate n ia =
     (if \<not> list_all (\<lambda>v. v < n) (next' ia) then Inl (AssertionError NextWithoutNext)
      else if \<not> list_all (\<lambda>v. v < n) (mate ia) then Inl (AssertionError MateWithoutMate)
      else if \<not> list_all (\<lambda>v. v < n) (coedge_to_face ia) then Inl (AssertionError FaceRelation)
      else if \<not> list_all (\<lambda>v. v < n) (coedge_to_edge ia) then Inl (AssertionError EdgeRelation)
      else Inr ia)"

definition build_incidence_arrays :: "('c, 'f) Compound \<Rightarrow> ('c, 'f) EntityMapper
    \<Rightarrow> error + IncidenceArrays" where
  "build_incidence_arrays body em = bind_err (fill_arrays body em) (validate (coedges_num em))"

section \<open>Invariant of the wire loops\<close>

text \<open>
  What holds of the arrays once the coedges in \<open>V\<close> have been visited: the arrays keep
  the length \<open>coedges_num\<close>; an entry of \<open>mate\<close> is the initial value or the mating
  index computed for a visited coedge with that id; every visited coedge has an id whose
  \<open>mate\<close> entry was written at a visit; an entry of \<open>coedge_to_edge\<close> is the initial
  value or the edge of a visited coedge that has this id or whose reverse has it.
\<close>

definition wire_inv :: "('c, 'f) Compound \<Rightarrow> ('c, 'f) EntityMapper \<Rightarrow> 'c set
    \<Rightarrow> IncidenceArrays \<Rightarrow> bool" where
  "wire_inv body em V ia \<longleftrightarrow>
     length (next' ia) = coedges_num em \<and> length (mate ia) = coedges_num em \<and>
     length (coedge_to_edge ia) = coedges_num em \<and>
     length (coedge_to_face ia) = coedges_num em \<and>
     (\<forall>i<coedges_num em. mate ia ! i = coedges_num em \<or>
        (\<exists>x\<in>V. map_of (oriented_edge_map em) x = Some i \<and>
           mate ia ! i = (case map_of (oriented_edge_map em) (reversed_edge body x) of
                            None \<Rightarrow> i | Some j \<Rightarrow> j) \<and>
           edge_map em (reversed_edge body x) = edge_map em x)) \<and>
     (\<forall>x\<in>V. \<exists>i<coedges_num em. map_of (oriented_edge_map em) x = Some i \<and>
        (\<exists>y\<in>V. map_of (oriented_edge_map em) y = Some i \<and>
           mate ia ! i = (case map_of (oriented_edge_map em) (reversed_edge body y) of
                            None \<Rightarrow> i | Some j \<Rightarrow> j))) \<and>
     (\<forall>i<coedges_num em. coedge_to_edge ia ! i = coedges_num em \<or>
        (\<exists>x\<in>V. (map_of (oriented_edge_map em) x = Some i \<or>
                  map_of (oriented_edge_map em) (reversed_edge body x) = Some i) \<and>
           edge_map em x = Some (coedge_to_edge ia ! i) \<and>
           edge_map em (reversed_edge body x) = edge_map em x))"

section \<open>Iterating next\<close>

text \<open>
  Following \<open>next\<close> for \<open>k\<close> steps from a coedge id; a read out of range has no
  result.
\<close>

fun follow :: "nat list \<Rightarrow> nat \<Rightarrow> nat \<Rightarrow> nat option" where
  "follow nxt 0 c = Some c"
| "follow nxt (Suc k) c = (if c < length nxt then follow nxt k (nxt ! c) else None)"

section \<open>Example inputs\<close>

text \<open>
  In the examples a coedge is an edge number with its orientation flag, reversing flips
  the flag, and the edge lookup ignores the flag. \<open>pole_body\<close> has two faces: the
  wire of face 0 runs over edges 0, 1, 2, the wire of face 1 runs back over edges 0 and 1;
  edge 2 has no coedge on the other side.
\<close>

definition flip :: "nat \<times> bool \<Rightarrow> nat \<times> bool" where
  "flip c = (fst c, \<not> snd c)"

definition pole_body :: "(nat \<times> bool, nat) Compound" where
  "pole_body =
     \<lparr>wires = [[(0, False), (1, False), (2, False)], [(0, True), (1, True)]],
      faces = [0, 1],
      wires_from_face = (\<lambda>f. if f = 0 then [[(0, False), (1, False), (2, False)]]
                              else if f = 1 then [[(0, True), (1, True)]] else []),
      reversed_edge = flip\<rparr>"

definition pole_mapper :: "(nat \<times> bool, nat) EntityMapper" where
  "pole_mapper =
     \<lparr>oriented_edge_map =
        [((0, False), 0), ((1, False), 1), ((2, False), 2), ((0, True), 3), ((1, True), 4)],
      edge_map = (\<lambda>c. if fst c < 3 then Some (fst c) else None),
      face_map = (\<lambda>f. if f < 2 then Some f else None)\<rparr>"

text \<open>Two faces that share one edge, each face with a wire of one coedge.\<close>

definition two_face_body :: "(nat \<times> bool, nat) Compound" where
  "two_face_body =
     \<lparr>wires = [[(0, False)], [(0, True)]],
      faces = [0, 1],
      wires_from_face = (\<lambda>f. if f = 0 then [[(0, False)]]
                              else if f = 1 then [[(0, True)]] else []),
      reversed_edge = flip\<rparr>"

definition two_face_mapper :: "(nat \<times> bool, nat) EntityMapper" where
  "two_face_mapper =
     \<lparr>oriented_edge_map = [((0, False), 0), ((0, True), 1)],
      edge_map = (\<lambda>c. if fst c < 1 then Some (fst c) else None),
      face_map = (\<lambda>f. if f < 2 then Some f else None)\<rparr>"

text \<open>
  A mapper for \<open>pole_body\<close> that also knows the coedge \<open>(2, True)\<close>, which no
  wire of the body lists: the arrays have six entries and the last one is never written.
\<close>

definition open_mapper :: "(nat \<times> bool, nat) EntityMapper" where
  "open_mapper =
     \<lparr>oriented_edge_map =
        [((0, False), 0), ((1, False), 1), ((2, False), 2), ((0, True), 3), ((1, True), 4),
         ((2, True), 5)],
      edge_map = (\<lambda>c. if fst c < 3 then Some (fst c) else None),
      face_map = (\<lambda>f. if f < 2 then Some f else None)\<rparr>"

text \<open>A body in which the coedge \<open>(0, False)\<close> is listed by two wires.\<close>

definition shared_body :: "(nat \<times> bool, nat) Compound" where
  "shared_body =
     \<lparr>wires = [[(0, False), (1, False)], [(0, False), (2, False)]],
      faces = [0, 1],
      wires_from_face = (\<lambda>f. if f = 0 then [[(0, False), (1, False)]]
                              else if f = 1 then [[(0, False), (2, False)]] else []),
      reversed_edge = flip\<rparr>"

definition shared_mapper :: "(nat \<times> bool, nat) EntityMapper" where
  "shared_mapper =
     \<lparr>oriented_edge_map = [((0, False), 0), ((1, False), 1), ((2, False), 2)],
      edge_map = (\<lambda>c. if fst c < 3 then Some (fst c) else None),
      face_map = (\<lambda>f. if f < 2 then Some f else None)\<rparr>"

text \<open>
  The input of the repository's test of \<^verbatim>\<open>simple_edge\<close>: two faces, one edge, two
  coedges, all feature rows zero, and an object with the attributes the test passes.
\<close>

definition test_face_features :: "real list list" where
  "test_face_features = [[0], [0]]"

definition test_edge_features :: "real list list" where
  "test_edge_features = [[0]]"

definition test_coedge_features :: "real list list" where
  "test_coedge_features = [[0], [0]]"

definition test_arrays :: pyobject where
  "test_arrays =
     [(''coedge_to_next'', [0]), (''coedge_to_mate'', [1, 0]),
      (''coedge_to_face'', [0, 1]), (''coedge_to_edge'', [0, 0])]"

text \<open>Arrays shorter than the coedge feature matrix, and an input that is empty throughout.\<close>

definition short_arrays :: pyobject where
  "short_arrays =
     [(''coedge_to_mate'', [0]), (''coedge_to_face'', [0]), (''coedge_to_edge'', [0])]"

definition empty_arrays :: pyobject where
  "empty_arrays =
     [(''coedge_to_mate'', []), (''coedge_to_face'', []), (''coedge_to_edge'', [])]"

section \<open>The graph assembler: closed form and failures\<close>

lemma bind_err_Inl [simp]: "bind_err (Inl e) f = Inl e"
  by (simp add: bind_err_def)

lemma bind_err_Inr [simp]: "bind_err (Inr x) f = f x"
  by (simp add: bind_err_def)

lemma bind_err_eq_Inr: "bind_err m f = Inr y \<longleftrightarrow> (\<exists>x. m = Inr x \<and> f x = Inr y)"
  by (cases m) simp_all

lemma bind_err_eq_Inl: "bind_err m f = Inl e \<longleftrightarrow> m = Inl e \<or> (\<exists>x. m = Inr x \<and> f x = Inl e)"
  by (cases m) simp_all

lemma getitem_eq_Inr: "getitem xs i = Inr v \<longleftrightarrow> i < length xs \<and> v = xs ! i"
  by (auto simp: getitem_def)

lemma setitem_eq_Inr: "setitem xs i v = Inr ys \<longleftrightarrow> i < length xs \<and> ys = xs[i := v]"
  by (auto simp: setitem_def)

lemma getattr_eq_Inr: "getattr obj name = Inr v \<longleftrightarrow> map_of obj name = Some v"
  by (simp add: getattr_def split: option.splits)

lemma lookup_eq_Inr: "lookup r = Inr v \<longleftrightarrow> r = Some v"
  by (simp add: lookup_def split: option.splits)

lemma f_loop_Inr:
  "f_loop k xs cn fn edges = Inr es \<longleftrightarrow>
     (\<forall>p \<in> set (enumerate k xs). fst p < length cn \<and> snd p < length fn) \<and>
     es = edges @ concat (map (\<lambda>p. [(cn ! fst p, fn ! snd p), (fn ! snd p, cn ! fst p)])
                           (enumerate k xs))"
proof (induction xs arbitrary: k edges)
  case Nil
  show ?case by auto
next
  case (Cons x xs)
  show ?case
    by (auto simp: bind_err_eq_Inr getitem_eq_Inr Cons.IH add_undirect_edge_def)
qed

lemma e_loop_Inr:
  "e_loop k xs cn en edges = Inr es \<longleftrightarrow>
     (\<forall>p \<in> set (enumerate k xs). fst p < length cn \<and> snd p < length en) \<and>
     es = edges @ concat (map (\<lambda>p. [(cn ! fst p, en ! snd p), (en ! snd p, cn ! fst p)])
                           (enumerate k xs))"
proof (induction xs arbitrary: k edges)
  case Nil
  show ?case by auto
next
  case (Cons x xs)
  show ?case
    by (auto simp: bind_err_eq_Inr getitem_eq_Inr Cons.IH add_undirect_edge_def)
qed

lemma m_loop_Inr:
  "m_loop k xs cn edges = Inr es \<longleftrightarrow>
     (\<forall>p \<in> set (enumerate k xs). fst p < length cn \<and> snd p < length cn) \<and>
     es = edges @ map (\<lambda>p. (cn ! fst p, cn ! snd p)) (enumerate k xs)"
proof (induction xs arbitrary: k edges)
  case Nil
  show ?case by auto
next
  case (Cons x xs)
  show ?case
    by (auto simp: bind_err_eq_Inr getitem_eq_Inr Cons.IH)
qed

lemma kernel_i_Inr:
  "kernel_i ixs cn edges = Inr es \<longleftrightarrow>
     (\<forall>i \<in> set ixs. i < length cn) \<and> es = edges @ map (\<lambda>i. (cn ! i, cn ! i)) ixs"
proof (induction ixs arbitrary: edges)
  case Nil
  show ?case by auto
next
  case (Cons x xs)
  show ?case
    by (auto simp: bind_err_eq_Inr getitem_eq_Inr Cons.IH)
qed

lemma mf_loop_Inr:
  "mf_loop k xs m c2f cn fn edges = Inr es \<longleftrightarrow>
     (\<forall>i \<in> set [k..<k + length xs]. i < length cn \<and> i < length m \<and> m ! i < length c2f
          \<and> c2f ! (m ! i) < length fn) \<and>
     es = edges @ concat (map (\<lambda>i. [(cn ! i, fn ! (c2f ! (m ! i))), (fn ! (c2f ! (m ! i)), cn ! i)])
                           [k..<k + length xs])"
proof (induction xs arbitrary: k edges)
  case Nil
  show ?case by auto
next
  case (Cons x xs)
  have u: "[k..<k + length (x # xs)] = k # [Suc k..<Suc k + length xs]"
    using upt_conv_Cons [of k "k + length (x # xs)"] by simp
  show ?case
    unfolding u
    by (auto simp: bind_err_eq_Inr getitem_eq_Inr Cons.IH add_undirect_edge_def)
qed

lemma enumerate_0_map:
  "map g (enumerate 0 xs) = map (\<lambda>i. g (i, xs ! i)) [0..<length xs]"
  by (rule nth_equalityI) (simp_all add: nth_enumerate_eq)

lemma enumerate_0_ball:
  "(\<forall>p \<in> set (enumerate 0 xs). P p) \<longleftrightarrow> (\<forall>i < length xs. P (i, xs ! i))"
proof
  assume h: "\<forall>p \<in> set (enumerate 0 xs). P p"
  show "\<forall>i < length xs. P (i, xs ! i)"
  proof (intro allI impI)
    fix i assume i: "i < length xs"
    then have "enumerate 0 xs ! i = (i, xs ! i)" by (simp add: nth_enumerate_eq)
    moreover have "enumerate 0 xs ! i \<in> set (enumerate 0 xs)" using i by simp
    ultimately show "P (i, xs ! i)" using h by metis
  qed
next
  assume h: "\<forall>i < length xs. P (i, xs ! i)"
  show "\<forall>p \<in> set (enumerate 0 xs). P p"
    using h by (auto simp: in_set_enumerate_eq)
qed

lemma senders_receivers_eq:
  "senders_receivers es s r = (s @ map fst es, r @ map snd es)"
  by (induction es s r rule: senders_receivers.induct) simp_all

lemma create_graph_eq:
  "create_graph ff ef cf es =
     Inr [(''face_features'', Features ff), (''edge_features'', Features ef),
          (''coedge_features'', Features cf), (''senders'', Ids (map fst es)),
          (''receivers'', Ids (map snd es))]"
  by (simp add: create_graph_def senders_receivers_eq)


lemma simple_edge_raw:
  assumes "map_of obj ''coedge_to_face'' = Some c2f"
    and "map_of obj ''coedge_to_mate'' = Some m"
    and "map_of obj ''coedge_to_edge'' = Some c2e"
    and "cn = map (\<lambda>i. i + length ff + length ef) [0..<length cf]"
    and "fn = [0..<length ff]"
    and "en = map (\<lambda>i. i + length ff) [0..<length ef]"
  shows "simple_edge ff ef cf obj = Inr g \<longleftrightarrow>
     ((\<forall>i<length c2f. i < length cn \<and> c2f ! i < length fn) \<and>
      (\<forall>i<length c2f. i < length cn \<and> i < length m \<and> m ! i < length c2f
          \<and> c2f ! (m ! i) < length fn) \<and>
      (\<forall>i<length c2e. i < length cn \<and> c2e ! i < length en) \<and>
      (\<forall>i<length m. i < length cn \<and> m ! i < length cn)) \<and>
     g = [(''face_features'', Features ff), (''edge_features'', Features ef),
          (''coedge_features'', Features cf),
          (''senders'', Ids (map fst (raw_edges cn fn en c2f m c2e))),
          (''receivers'', Ids (map snd (raw_edges cn fn en c2f m c2e)))]"
proof -
  have g: "getattr obj ''coedge_to_face'' = Inr c2f" "getattr obj ''coedge_to_mate'' = Inr m"
    "getattr obj ''coedge_to_edge'' = Inr c2e"
    using assms(1-3) by (simp_all add: getattr_eq_Inr)
  have cnl: "length cn = length cf" using assms(4) by simp
  show ?thesis
    unfolding simple_edge_def Let_def arange_def g bind_err_Inr kernel_f_def kernel_mf_def
      kernel_e_def kernel_m_def assms(4)[symmetric] assms(5)[symmetric] assms(6)[symmetric]
    by (auto simp: bind_err_eq_Inr f_loop_Inr e_loop_Inr m_loop_Inr mf_loop_Inr kernel_i_Inr
        create_graph_eq enumerate_0_ball enumerate_0_map raw_edges_def cnl)
qed


lemma accepts_iff:
  "accepts F E C c2f m c2e \<longleftrightarrow>
     (\<forall>i<length c2f. i < C \<and> c2f ! i < F \<and> i < length m \<and> m ! i < length c2f
          \<and> c2f ! (m ! i) < F) \<and>
     (\<forall>i<length c2e. i < C \<and> c2e ! i < E) \<and>
     (\<forall>i<length m. i < C \<and> m ! i < C)"
  by (auto simp: accepts_def list_all_iff)

lemma raw_edges_flat:
  assumes "accepts (length ff) (length ef) (length cf) c2f m c2e"
  shows "raw_edges (map (\<lambda>i. i + length ff + length ef) [0..<length cf]) [0..<length ff]
           (map (\<lambda>i. i + length ff) [0..<length ef]) c2f m c2e
         = flat_edges (length ff) (length ef) (length cf) c2f m c2e"
proof -
  let ?cn = "map (\<lambda>i. i + length ff + length ef) [0..<length cf]"
  let ?fn = "[0..<length ff]"
  let ?en = "map (\<lambda>i. i + length ff) [0..<length ef]"
  let ?N = "length ff + length ef"
  have b1: "map (\<lambda>i. [(?cn ! i, ?fn ! (c2f ! i)), (?fn ! (c2f ! i), ?cn ! i)]) [0..<length c2f]
      = map (\<lambda>c. [(c + length ff + length ef, c2f ! c), (c2f ! c, c + length ff + length ef)])
          [0..<length c2f]"
    by (rule map_cong) (use assms in \<open>auto simp: accepts_iff\<close>)
  have b2: "map (\<lambda>i. [(?cn ! i, ?fn ! (c2f ! (m ! i))), (?fn ! (c2f ! (m ! i)), ?cn ! i)])
          [0..<length c2f]
      = map (\<lambda>c. [(c + length ff + length ef, c2f ! (m ! c)),
                   (c2f ! (m ! c), c + length ff + length ef)]) [0..<length c2f]"
    by (rule map_cong) (use assms in \<open>auto simp: accepts_iff\<close>)
  have b3: "map (\<lambda>i. [(?cn ! i, ?en ! (c2e ! i)), (?en ! (c2e ! i), ?cn ! i)]) [0..<length c2e]
      = map (\<lambda>c. [(c + length ff + length ef, c2e ! c + length ff),
                   (c2e ! c + length ff, c + length ff + length ef)]) [0..<length c2e]"
    by (rule map_cong) (use assms in \<open>auto simp: accepts_iff\<close>)
  have b4: "map (\<lambda>i. (?cn ! i, ?cn ! i)) [0..<length ?cn]
      = map (\<lambda>c. (c + length ff + length ef, c + length ff + length ef)) [0..<length cf]"
    by (rule map_cong) auto
  have b5: "map (\<lambda>i. (?cn ! i, ?cn ! (m ! i))) [0..<length m]
      = map (\<lambda>c. (c + length ff + length ef, m ! c + length ff + length ef)) [0..<length m]"
    by (rule map_cong) (use assms in \<open>auto simp: accepts_iff\<close>)
  show ?thesis
    unfolding raw_edges_def flat_edges_def b1 b2 b3 b4 b5 ..
qed

lemma simple_edge_flat:
  assumes "map_of obj ''coedge_to_face'' = Some c2f"
    and "map_of obj ''coedge_to_mate'' = Some m"
    and "map_of obj ''coedge_to_edge'' = Some c2e"
  shows "simple_edge ff ef cf obj = Inr g \<longleftrightarrow>
     accepts (length ff) (length ef) (length cf) c2f m c2e \<and>
     g = [(''face_features'', Features ff), (''edge_features'', Features ef),
          (''coedge_features'', Features cf),
          (''senders'', Ids (map fst (flat_edges (length ff) (length ef) (length cf) c2f m c2e))),
          (''receivers'', Ids (map snd (flat_edges (length ff) (length ef) (length cf) c2f m c2e)))]"
proof -
  let ?cn = "map (\<lambda>i. i + length ff + length ef) [0..<length cf]"
  let ?en = "map (\<lambda>i. i + length ff) [0..<length ef]"
  have acc: "((\<forall>i<length c2f. i < length ?cn \<and> c2f ! i < length [0..<length ff]) \<and>
      (\<forall>i<length c2f. i < length ?cn \<and> i < length m \<and> m ! i < length c2f
          \<and> c2f ! (m ! i) < length [0..<length ff]) \<and>
      (\<forall>i<length c2e. i < length ?cn \<and> c2e ! i < length ?en) \<and>
      (\<forall>i<length m. i < length ?cn \<and> m ! i < length ?cn))
     \<longleftrightarrow> accepts (length ff) (length ef) (length cf) c2f m c2e"
    unfolding accepts_iff by auto
  show ?thesis
    unfolding simple_edge_raw [OF assms refl refl refl] acc
    using raw_edges_flat [of ff ef cf c2f m c2e] by auto
qed


lemma getitem_Inl: "getitem xs i = Inl e \<Longrightarrow> e = IndexError"
  by (auto simp: getitem_def split: if_splits)

lemma f_loop_Inl: "f_loop k xs cn fn edges = Inl e \<Longrightarrow> e = IndexError"
  by (induction xs arbitrary: k edges) (auto simp: bind_err_eq_Inl dest: getitem_Inl)

lemma e_loop_Inl: "e_loop k xs cn en edges = Inl e \<Longrightarrow> e = IndexError"
  by (induction xs arbitrary: k edges) (auto simp: bind_err_eq_Inl dest: getitem_Inl)

lemma m_loop_Inl: "m_loop k xs cn edges = Inl e \<Longrightarrow> e = IndexError"
  by (induction xs arbitrary: k edges) (auto simp: bind_err_eq_Inl dest: getitem_Inl)

lemma kernel_i_Inl: "kernel_i xs cn edges = Inl e \<Longrightarrow> e = IndexError"
  by (induction xs arbitrary: edges) (auto simp: bind_err_eq_Inl dest: getitem_Inl)

lemma mf_loop_Inl: "mf_loop k xs m c2f cn fn edges = Inl e \<Longrightarrow> e = IndexError"
  by (induction xs arbitrary: k edges) (auto simp: bind_err_eq_Inl dest: getitem_Inl)

lemma simple_edge_Inl:
  assumes "map_of obj ''coedge_to_face'' = Some c2f"
    and "map_of obj ''coedge_to_mate'' = Some m"
    and "map_of obj ''coedge_to_edge'' = Some c2e"
    and "simple_edge ff ef cf obj = Inl e"
  shows "e = IndexError"
proof -
  have g: "getattr obj ''coedge_to_face'' = Inr c2f" "getattr obj ''coedge_to_mate'' = Inr m"
    "getattr obj ''coedge_to_edge'' = Inr c2e"
    using assms(1-3) by (simp_all add: getattr_eq_Inr)
  show ?thesis
    using assms(4)
    unfolding simple_edge_def Let_def g bind_err_Inr kernel_f_def kernel_mf_def
      kernel_e_def kernel_m_def
    by (auto simp: bind_err_eq_Inl create_graph_eq
        dest: f_loop_Inl e_loop_Inl m_loop_Inl kernel_i_Inl mf_loop_Inl)
qed

lemma simple_edge_not_accepted:
  assumes "map_of obj ''coedge_to_face'' = Some c2f"
    and "map_of obj ''coedge_to_mate'' = Some m"
    and "map_of obj ''coedge_to_edge'' = Some c2e"
    and "\<not> accepts (length ff) (length ef) (length cf) c2f m c2e"
  shows "simple_edge ff ef cf obj = Inl IndexError"
proof (cases "simple_edge ff ef cf obj")
  case (Inl e)
  then show ?thesis using simple_edge_Inl [OF assms(1-3) Inl] by simp
next
  case (Inr g)
  then show ?thesis using simple_edge_flat [OF assms(1-3), of ff ef cf g] assms(4) by simp
qed

lemma simple_edge_IncidenceArrays_fails:
  "simple_edge ff ef cf (IncidenceArrays_object ia) = Inl AttributeError \<or>
   simple_edge ff ef cf (IncidenceArrays_object ia) = Inl IndexError"
proof -
  have a: "getattr (IncidenceArrays_object ia) ''coedge_to_mate'' = Inl AttributeError"
    by (simp add: getattr_def IncidenceArrays_object_def)
  have b: "getattr (IncidenceArrays_object ia) ''coedge_to_face'' = Inr (coedge_to_face ia)"
    by (simp add: getattr_def IncidenceArrays_object_def)
  show ?thesis
    unfolding simple_edge_def Let_def a b bind_err_Inr bind_err_Inl kernel_f_def
    by (cases "f_loop 0 (coedge_to_face ia)
          (map (\<lambda>i. i + length ff + length ef) (arange (length cf))) (arange (length ff)) []")
      (auto dest: f_loop_Inl)
qed

lemma simple_edge_ids_in_range:
  assumes "map_of obj ''coedge_to_face'' = Some c2f"
    and "map_of obj ''coedge_to_mate'' = Some m"
    and "map_of obj ''coedge_to_edge'' = Some c2e"
    and "simple_edge ff ef cf obj = Inr g"
  shows "\<exists>s r. map_of g ''senders'' = Some (Ids s) \<and> map_of g ''receivers'' = Some (Ids r) \<and>
           length s = length r \<and>
           (\<forall>v \<in> set s \<union> set r. v < length ff + length ef + length cf)"
proof -
  let ?E = "flat_edges (length ff) (length ef) (length cf) c2f m c2e"
  from simple_edge_flat [OF assms(1-3), of ff ef cf g] assms(4)
  have acc: "accepts (length ff) (length ef) (length cf) c2f m c2e"
    and s: "map_of g ''senders'' = Some (Ids (map fst ?E))"
    and r: "map_of g ''receivers'' = Some (Ids (map snd ?E))"
    by simp_all
  have "\<forall>p \<in> set ?E. fst p < length ff + length ef + length cf
        \<and> snd p < length ff + length ef + length cf"
    using acc unfolding flat_edges_def accepts_iff by auto
  then have "\<forall>v \<in> set (map fst ?E) \<union> set (map snd ?E). v < length ff + length ef + length cf"
    by auto
  then show ?thesis using s r by (intro exI [of _ "map fst ?E"] exI [of _ "map snd ?E"]) simp
qed

text \<open>
  Claim C1 (pipeline composition) against the code. The builder returns a named tuple with
  the fields \<open>next\<close>, \<open>mate\<close>, \<open>coedge_to_face\<close>, \<open>coedge_to_edge\<close>;
  \<^verbatim>\<open>simple_edge\<close> reads the attribute \<open>coedge_to_mate\<close>, which that tuple does not
  have. For the body of two faces sharing one edge the builder succeeds, and handing its
  result to \<^verbatim>\<open>simple_edge\<close> with feature matrices of the right row counts ends in
  AttributeError: no graph is returned.
\<close>

theorem simple_edge_rejects_builder_output:
  "build_incidence_arrays two_face_body two_face_mapper =
     Inr \<lparr>next' = [0, 1], mate = [1, 0], coedge_to_face = [0, 1], coedge_to_edge = [0, 0]\<rparr> \<and>
   simple_edge test_face_features test_edge_features test_coedge_features
     (IncidenceArrays_object
        \<lparr>next' = [0, 1], mate = [1, 0], coedge_to_face = [0, 1], coedge_to_edge = [0, 0]\<rparr>)
     = Inl AttributeError"
  by code_simp

text \<open>
  Claim C2 (assembler output guarantee) against the code, at the input of the
  repository's own test: the graph that comes back has the five keys of
  \<^verbatim>\<open>_create_graph\<close>, with senders and receivers of equal length and ids below
  \<open>F + E + C = 5\<close>, but it holds no node feature table: the three feature matrices
  are returned as they came in, and the key \<open>nodes\<close> that the test reads is absent.
\<close>

theorem graph_has_no_node_table:
  "simple_edge test_face_features test_edge_features test_coedge_features test_arrays =
     Inr [(''face_features'', Features [[0], [0]]), (''edge_features'', Features [[0]]),
          (''coedge_features'', Features [[0], [0]]),
          (''senders'', Ids [3, 0, 4, 1, 3, 1, 4, 0, 3, 2, 4, 2, 3, 4, 3, 4]),
          (''receivers'', Ids [0, 3, 1, 4, 1, 3, 0, 4, 2, 3, 2, 4, 3, 4, 4, 3])] \<and>
   map_of [(''face_features'', Features [[0], [0]]), (''edge_features'', Features [[0]]),
          (''coedge_features'', Features [[0], [0::real]]),
          (''senders'', Ids [3, 0, 4, 1, 3, 1, 4, 0, 3, 2, 4, 2, 3, 4, 3, 4]),
          (''receivers'', Ids [0, 3, 1, 4, 1, 3, 0, 4, 2, 3, 2, 4, 3, 4, 4, 3])] ''nodes'' = None"
  by code_simp

text \<open>
  Claim C3 (assembler error conditions) as stated fails: with all three feature matrices
  empty and empty arrays \<^verbatim>\<open>simple_edge\<close> returns a graph, and with two coedge feature
  rows and arrays of length one it returns a graph as well.
\<close>

theorem no_shape_check_counterexample:
  "simple_edge ([] :: real list list) [] [] empty_arrays =
     Inr [(''face_features'', Features []), (''edge_features'', Features []),
          (''coedge_features'', Features []), (''senders'', Ids []), (''receivers'', Ids [])] \<and>
   length test_coedge_features = 2 \<and>
   getattr short_arrays ''coedge_to_face'' = Inr [0] \<and>
   getattr short_arrays ''coedge_to_mate'' = Inr [0] \<and>
   getattr short_arrays ''coedge_to_edge'' = Inr [0] \<and>
   simple_edge test_face_features test_edge_features test_coedge_features short_arrays =
     Inr [(''face_features'', Features [[0], [0]]), (''edge_features'', Features [[0]]),
          (''coedge_features'', Features [[0], [0]]),
          (''senders'', Ids [3, 0, 3, 0, 3, 2, 3, 4, 3]),
          (''receivers'', Ids [0, 3, 0, 3, 2, 3, 3, 4, 3])]"
  by code_simp

text \<open>
  Claim C3, amended: for an \<^verbatim>\<open>incidence_arrays\<close> object that has the attributes
  \<open>coedge_to_face\<close>, \<open>coedge_to_mate\<close> and \<open>coedge_to_edge\<close>,
  \<^verbatim>\<open>simple_edge\<close> makes no shape check of its own. It returns a graph when every
  index its five rules read is in range: for every position \<open>i\<close> of
  \<open>coedge_to_face\<close>, \<open>i < C\<close>, \<open>coedge_to_face[i] < F\<close>,
  \<open>i < len(coedge_to_mate)\<close>, \<open>coedge_to_mate[i] < len(coedge_to_face)\<close> and
  \<open>coedge_to_face[coedge_to_mate[i]] < F\<close>; for every position \<open>i\<close> of
  \<open>coedge_to_edge\<close>, \<open>i < C\<close> and \<open>coedge_to_edge[i] < E\<close>; for every
  position \<open>i\<close> of \<open>coedge_to_mate\<close>, \<open>i < C\<close> and
  \<open>coedge_to_mate[i] < C\<close>. In every other case it fails with IndexError and returns
  no graph. In particular it fails whenever the face feature matrix is empty while
  \<open>coedge_to_face\<close> is not, the edge feature matrix is empty while
  \<open>coedge_to_edge\<close> is not, the coedge feature matrix is empty while one of the
  three arrays is not, or one of the three arrays is longer than the coedge feature row
  count.
\<close>

theorem simple_edge_fails_on_out_of_range:
  assumes "map_of obj ''coedge_to_face'' = Some c2f"
    and "map_of obj ''coedge_to_mate'' = Some m"
    and "map_of obj ''coedge_to_edge'' = Some c2e"
  shows "((\<forall>i<length c2f. i < length cf \<and> c2f ! i < length ff \<and> i < length m \<and>
             m ! i < length c2f \<and> c2f ! (m ! i) < length ff) \<and>
          (\<forall>i<length c2e. i < length cf \<and> c2e ! i < length ef) \<and>
          (\<forall>i<length m. i < length cf \<and> m ! i < length cf)
          \<longrightarrow> (\<exists>g. simple_edge ff ef cf obj = Inr g)) \<and>
         (\<not> ((\<forall>i<length c2f. i < length cf \<and> c2f ! i < length ff \<and> i < length m \<and>
             m ! i < length c2f \<and> c2f ! (m ! i) < length ff) \<and>
          (\<forall>i<length c2e. i < length cf \<and> c2e ! i < length ef) \<and>
          (\<forall>i<length m. i < length cf \<and> m ! i < length cf))
          \<longrightarrow> simple_edge ff ef cf obj = Inl IndexError) \<and>
         ((ff = [] \<and> c2f \<noteq> []) \<or> (ef = [] \<and> c2e \<noteq> []) \<or>
          (cf = [] \<and> (c2f \<noteq> [] \<or> m \<noteq> [] \<or> c2e \<noteq> [])) \<or>
          length cf < length c2f \<or> length cf < length m \<or> length cf < length c2e
          \<longrightarrow> simple_edge ff ef cf obj = Inl IndexError)"
proof (intro conjI impI)
  assume "(\<forall>i<length c2f. i < length cf \<and> c2f ! i < length ff \<and> i < length m \<and>
             m ! i < length c2f \<and> c2f ! (m ! i) < length ff) \<and>
          (\<forall>i<length c2e. i < length cf \<and> c2e ! i < length ef) \<and>
          (\<forall>i<length m. i < length cf \<and> m ! i < length cf)"
  then have "accepts (length ff) (length ef) (length cf) c2f m c2e"
    unfolding accepts_iff .
  then show "\<exists>g. simple_edge ff ef cf obj = Inr g"
    unfolding simple_edge_flat [OF assms] by blast
next
  assume "\<not> ((\<forall>i<length c2f. i < length cf \<and> c2f ! i < length ff \<and> i < length m \<and>
             m ! i < length c2f \<and> c2f ! (m ! i) < length ff) \<and>
          (\<forall>i<length c2e. i < length cf \<and> c2e ! i < length ef) \<and>
          (\<forall>i<length m. i < length cf \<and> m ! i < length cf))"
  then have "\<not> accepts (length ff) (length ef) (length cf) c2f m c2e"
    unfolding accepts_iff .
  then show "simple_edge ff ef cf obj = Inl IndexError"
    by (rule simple_edge_not_accepted [OF assms])
next
  assume c: "(ff = [] \<and> c2f \<noteq> []) \<or> (ef = [] \<and> c2e \<noteq> []) \<or>
          (cf = [] \<and> (c2f \<noteq> [] \<or> m \<noteq> [] \<or> c2e \<noteq> [])) \<or>
          length cf < length c2f \<or> length cf < length m \<or> length cf < length c2e"
  have "\<not> accepts (length ff) (length ef) (length cf) c2f m c2e"
  proof
    assume acc: "accepts (length ff) (length ef) (length cf) c2f m c2e"
    then have f: "\<forall>i<length c2f. i < length cf \<and> c2f ! i < length ff"
      and e: "\<forall>i<length c2e. i < length cf \<and> c2e ! i < length ef"
      and mm: "\<forall>i<length m. i < length cf"
      unfolding accepts_iff by auto
    have lf: "length c2f \<le> length cf"
    proof (rule ccontr)
      assume "\<not> length c2f \<le> length cf"
      then have "length cf < length c2f" by simp
      with f show False by blast
    qed
    have le: "length c2e \<le> length cf"
    proof (rule ccontr)
      assume "\<not> length c2e \<le> length cf"
      then have "length cf < length c2e" by simp
      with e show False by blast
    qed
    have lm: "length m \<le> length cf"
    proof (rule ccontr)
      assume "\<not> length m \<le> length cf"
      then have "length cf < length m" by simp
      with mm show False by blast
    qed
    have nf: "c2f \<noteq> [] \<Longrightarrow> ff \<noteq> []" using f by (cases c2f) auto
    have ne: "c2e \<noteq> [] \<Longrightarrow> ef \<noteq> []" using e by (cases c2e) auto
    from c lf le lm nf ne show False by auto
  qed
  then show "simple_edge ff ef cf obj = Inl IndexError"
    by (rule simple_edge_not_accepted [OF assms])
qed

theorem simple_edge_fails_on_out_of_range_witness:
  "map_of test_arrays ''coedge_to_face'' = Some [0, 1] \<and>
   map_of test_arrays ''coedge_to_mate'' = Some [1, 0] \<and>
   map_of test_arrays ''coedge_to_edge'' = Some [0, 0] \<and>
   simple_edge ([] :: real list list) test_edge_features test_coedge_features test_arrays
     = Inl IndexError \<and>
   (\<exists>g. simple_edge test_face_features test_edge_features test_coedge_features test_arrays
     = Inr g)"
proof -
  have a1: "map_of test_arrays ''coedge_to_face'' = Some [0, 1]"
    and a2: "map_of test_arrays ''coedge_to_mate'' = Some [1, 0]"
    and a3: "map_of test_arrays ''coedge_to_edge'' = Some [0, 0]"
    by (simp_all add: test_arrays_def)
  have l: "length test_face_features = 2" "length test_edge_features = 1"
    "length test_coedge_features = 2"
    by (simp_all add: test_face_features_def test_edge_features_def test_coedge_features_def)
  have "([] :: real list list) = [] \<and> [0::nat, 1] \<noteq> []" by simp
  with simple_edge_fails_on_out_of_range [OF a1 a2 a3,
      of test_coedge_features "[] :: real list list" test_edge_features]
  have 1: "simple_edge ([] :: real list list) test_edge_features test_coedge_features test_arrays
     = Inl IndexError" by blast
  have r: "(\<forall>i<length [0::nat, 1]. i < length test_coedge_features \<and>
             [0, 1] ! i < length test_face_features \<and> i < length [1::nat, 0] \<and>
             [1, 0] ! i < length [0::nat, 1] \<and> [0, 1] ! ([1, 0] ! i) < length test_face_features) \<and>
          (\<forall>i<length [0::nat, 0]. i < length test_coedge_features \<and>
             [0, 0] ! i < length test_edge_features) \<and>
          (\<forall>i<length [1::nat, 0]. i < length test_coedge_features \<and>
             [1, 0] ! i < length test_coedge_features)"
    by (simp add: l less_Suc_eq)
  with simple_edge_fails_on_out_of_range [OF a1 a2 a3,
      of test_coedge_features test_face_features test_edge_features]
  have 2: "\<exists>g. simple_edge test_face_features test_edge_features test_coedge_features test_arrays
     = Inr g" by blast
  from a1 a2 a3 1 2 show ?thesis by blast
qed

lemma flat_edges_emission_order:
  assumes "length c2f = C" and "length m = C" and "length c2e = C"
  shows "flat_edges F E C c2f m c2e = emission_order F E C c2f m c2e"
  unfolding flat_edges_def emission_order_def assms
  by (simp add: add.commute add.left_commute)

lemma length_concat_pairs:
  "length (concat (map (\<lambda>c. [f c, g c]) xs)) = 2 * length xs"
  by (induction xs) simp_all

lemma length_emission_order: "length (emission_order F E C c2f m c2e) = 8 * C"
  unfolding emission_order_def by (simp add: length_concat_pairs)

lemma wiring_per_array:
  assumes "map_of obj ''coedge_to_face'' = Some c2f"
    and "map_of obj ''coedge_to_mate'' = Some m"
    and "map_of obj ''coedge_to_edge'' = Some c2e"
    and "simple_edge ff ef cf obj = Inr g"
  shows "\<exists>s r. map_of g ''senders'' = Some (Ids s) \<and> map_of g ''receivers'' = Some (Ids r) \<and>
     length s = length r \<and>
     (\<forall>c<length c2f. c < length cf \<and> c2f ! c < length ff \<and> c2f ! (m ! c) < length ff \<and>
        (c + length ff + length ef, c2f ! c) \<in> set (zip s r) \<and>
        (c2f ! c, c + length ff + length ef) \<in> set (zip s r) \<and>
        (c + length ff + length ef, c2f ! (m ! c)) \<in> set (zip s r) \<and>
        (c2f ! (m ! c), c + length ff + length ef) \<in> set (zip s r)) \<and>
     (\<forall>c<length c2e. c < length cf \<and> c2e ! c < length ef \<and>
        (c + length ff + length ef, c2e ! c + length ff) \<in> set (zip s r) \<and>
        (c2e ! c + length ff, c + length ff + length ef) \<in> set (zip s r)) \<and>
     (\<forall>c<length cf. (c + length ff + length ef, c + length ff + length ef) \<in> set (zip s r)) \<and>
     (\<forall>c<length m. c < length cf \<and> m ! c < length cf \<and>
        (c + length ff + length ef, m ! c + length ff + length ef) \<in> set (zip s r)) \<and>
     drop (length s - length m) (zip s r)
       = map (\<lambda>c. (c + length ff + length ef, m ! c + length ff + length ef)) [0..<length m]"
proof -
  let ?E = "flat_edges (length ff) (length ef) (length cf) c2f m c2e"
  from simple_edge_flat [OF assms(1-3), of ff ef cf g] assms(4)
  have acc: "accepts (length ff) (length ef) (length cf) c2f m c2e"
    and s: "map_of g ''senders'' = Some (Ids (map fst ?E))"
    and r: "map_of g ''receivers'' = Some (Ids (map snd ?E))"
    by simp_all
  have z: "zip (map fst ?E) (map snd ?E) = ?E" by (simp add: zip_map_fst_snd)
  have p1: "\<forall>c<length c2f. c < length cf \<and> c2f ! c < length ff \<and> c2f ! (m ! c) < length ff \<and>
        (c + length ff + length ef, c2f ! c) \<in> set ?E \<and>
        (c2f ! c, c + length ff + length ef) \<in> set ?E \<and>
        (c + length ff + length ef, c2f ! (m ! c)) \<in> set ?E \<and>
        (c2f ! (m ! c), c + length ff + length ef) \<in> set ?E"
    using acc unfolding accepts_iff flat_edges_def by auto
  have p2: "\<forall>c<length c2e. c < length cf \<and> c2e ! c < length ef \<and>
        (c + length ff + length ef, c2e ! c + length ff) \<in> set ?E \<and>
        (c2e ! c + length ff, c + length ff + length ef) \<in> set ?E"
    using acc unfolding accepts_iff flat_edges_def by auto
  have p3: "\<forall>c<length cf. (c + length ff + length ef, c + length ff + length ef) \<in> set ?E"
    unfolding flat_edges_def by auto
  have p4: "\<forall>c<length m. c < length cf \<and> m ! c < length cf \<and>
        (c + length ff + length ef, m ! c + length ff + length ef) \<in> set ?E"
    using acc unfolding accepts_iff flat_edges_def by auto
  have p5: "drop (length (map fst ?E) - length m) ?E
       = map (\<lambda>c. (c + length ff + length ef, m ! c + length ff + length ef)) [0..<length m]"
    unfolding flat_edges_def by (simp add: length_concat_pairs)
  show ?thesis
    apply (rule exI [of _ "map fst ?E"])
    apply (rule exI [of _ "map snd ?E"])
    unfolding z
    using s r p1 p2 p3 p4 p5 by simp
qed

text \<open>
  Claim C10, amended: for every input whose coedge feature matrix has \<open>C\<close> rows, whose
  arrays \<open>coedge_to_face\<close>, \<open>coedge_to_mate\<close> and \<open>coedge_to_edge\<close> each have
  length \<open>C\<close>, and on which \<^verbatim>\<open>simple_edge\<close> returns, senders and receivers are
  the two columns of \<open>emission_order\<close>, of length \<open>8 * C\<close>: the face pairs for
  coedges \<open>0\<close> to \<open>C - 1\<close> (coedge to face, then face to coedge), then the
  mate-face pairs, then the edge pairs, then the self-loops, then the one-way edges to
  the mates. The result is a function of the input, so equal inputs give equal arrays.
\<close>

theorem simple_edge_emission_order:
  assumes "map_of obj ''coedge_to_face'' = Some c2f"
    and "map_of obj ''coedge_to_mate'' = Some m"
    and "map_of obj ''coedge_to_edge'' = Some c2e"
    and "length c2f = length cf" and "length m = length cf" and "length c2e = length cf"
    and "simple_edge ff ef cf obj = Inr g"
  shows "map_of g ''senders''
      = Some (Ids (map fst (emission_order (length ff) (length ef) (length cf) c2f m c2e))) \<and>
    map_of g ''receivers''
      = Some (Ids (map snd (emission_order (length ff) (length ef) (length cf) c2f m c2e))) \<and>
    length (emission_order (length ff) (length ef) (length cf) c2f m c2e) = 8 * length cf"
  using simple_edge_flat [OF assms(1-3), of ff ef cf g] assms(7)
    flat_edges_emission_order [OF assms(4-6), of "length ff" "length ef"]
  by (simp add: length_emission_order)


text \<open>
  Claim C5 (kernel wiring pattern) as stated fails when the arrays are shorter than the
  coedge feature matrix: with two coedge feature rows and arrays of length one
  \<^verbatim>\<open>simple_edge\<close> returns a graph in which coedge 1 (node 4) has its self-loop
  only, no pair with a face, with an edge or with a mate.
\<close>

theorem coedge_without_face_counterexample:
  "length test_face_features = 2 \<and> length test_edge_features = 1 \<and>
   length test_coedge_features = 2 \<and>
   simple_edge test_face_features test_edge_features test_coedge_features short_arrays =
     Inr [(''face_features'', Features [[0], [0]]), (''edge_features'', Features [[0]]),
          (''coedge_features'', Features [[0], [0]]),
          (''senders'', Ids [3, 0, 3, 0, 3, 2, 3, 4, 3]),
          (''receivers'', Ids [0, 3, 0, 3, 2, 3, 3, 4, 3])] \<and>
   (4, 0) \<notin> set (zip [3, 0, 3, 0, 3, 2, 3, 4, 3 :: nat] [0, 3, 0, 3, 2, 3, 3, 4, 3 :: nat]) \<and>
   (4, 1) \<notin> set (zip [3, 0, 3, 0, 3, 2, 3, 4, 3 :: nat] [0, 3, 0, 3, 2, 3, 3, 4, 3 :: nat]) \<and>
   (4, 2) \<notin> set (zip [3, 0, 3, 0, 3, 2, 3, 4, 3 :: nat] [0, 3, 0, 3, 2, 3, 3, 4, 3 :: nat]) \<and>
   (4, 3) \<notin> set (zip [3, 0, 3, 0, 3, 2, 3, 4, 3 :: nat] [0, 3, 0, 3, 2, 3, 3, 4, 3 :: nat])"
  by code_simp

text \<open>
  Claim C5, amended: for every input whose coedge feature matrix has \<open>C\<close> rows, whose
  arrays \<open>coedge_to_face\<close>, \<open>coedge_to_mate\<close> and \<open>coedge_to_edge\<close> each have
  length \<open>C\<close>, and on which \<^verbatim>\<open>simple_edge\<close> returns, for every coedge
  \<open>c < C\<close> the graph holds the pair between \<open>c\<close> and its face
  \<open>coedge_to_face[c]\<close> in both directions, the pair between \<open>c\<close> and the face of
  its mate in both directions, the pair between \<open>c\<close> and its edge
  \<open>coedge_to_edge[c]\<close> in both directions, the self-loop on \<open>c\<close>, and the edge
  from \<open>c\<close> to \<open>mate[c]\<close>. Ids are in the flat space: a face id as it is (below
  \<open>F\<close>), an edge id plus \<open>F\<close>, a coedge id plus \<open>F + E\<close>. The mate rule
  contributes the last \<open>C\<close> entries of the edge list, exactly one directed edge per
  coedge and no mirror of it.
\<close>

theorem simple_edge_wiring:
  assumes "map_of obj ''coedge_to_face'' = Some c2f"
    and "map_of obj ''coedge_to_mate'' = Some m"
    and "map_of obj ''coedge_to_edge'' = Some c2e"
    and "length c2f = length cf" and "length m = length cf" and "length c2e = length cf"
    and "simple_edge ff ef cf obj = Inr g"
  shows "\<exists>s r. map_of g ''senders'' = Some (Ids s) \<and> map_of g ''receivers'' = Some (Ids r) \<and>
     length s = length r \<and>
     (\<forall>c<length cf. c2f ! c < length ff \<and> m ! c < length cf \<and> c2f ! (m ! c) < length ff \<and>
        c2e ! c < length ef \<and>
        (c + length ff + length ef, c2f ! c) \<in> set (zip s r) \<and>
        (c2f ! c, c + length ff + length ef) \<in> set (zip s r) \<and>
        (c + length ff + length ef, c2f ! (m ! c)) \<in> set (zip s r) \<and>
        (c2f ! (m ! c), c + length ff + length ef) \<in> set (zip s r) \<and>
        (c + length ff + length ef, c2e ! c + length ff) \<in> set (zip s r) \<and>
        (c2e ! c + length ff, c + length ff + length ef) \<in> set (zip s r) \<and>
        (c + length ff + length ef, c + length ff + length ef) \<in> set (zip s r) \<and>
        (c + length ff + length ef, m ! c + length ff + length ef) \<in> set (zip s r)) \<and>
     drop (length s - length cf) (zip s r)
       = map (\<lambda>c. (c + length ff + length ef, m ! c + length ff + length ef)) [0..<length cf]"
proof -
  from wiring_per_array [OF assms(1-3) assms(7)] obtain s r where
    s: "map_of g ''senders'' = Some (Ids s)" and r: "map_of g ''receivers'' = Some (Ids r)"
    and l: "length s = length r"
    and f: "\<forall>c<length c2f. c < length cf \<and> c2f ! c < length ff \<and> c2f ! (m ! c) < length ff \<and>
        (c + length ff + length ef, c2f ! c) \<in> set (zip s r) \<and>
        (c2f ! c, c + length ff + length ef) \<in> set (zip s r) \<and>
        (c + length ff + length ef, c2f ! (m ! c)) \<in> set (zip s r) \<and>
        (c2f ! (m ! c), c + length ff + length ef) \<in> set (zip s r)"
    and e: "\<forall>c<length c2e. c < length cf \<and> c2e ! c < length ef \<and>
        (c + length ff + length ef, c2e ! c + length ff) \<in> set (zip s r) \<and>
        (c2e ! c + length ff, c + length ff + length ef) \<in> set (zip s r)"
    and i: "\<forall>c<length cf. (c + length ff + length ef, c + length ff + length ef) \<in> set (zip s r)"
    and mm: "\<forall>c<length m. c < length cf \<and> m ! c < length cf \<and>
        (c + length ff + length ef, m ! c + length ff + length ef) \<in> set (zip s r)"
    and d: "drop (length s - length m) (zip s r)
       = map (\<lambda>c. (c + length ff + length ef, m ! c + length ff + length ef)) [0..<length m]"
    by blast
  have all: "\<forall>c<length cf. c2f ! c < length ff \<and> m ! c < length cf \<and> c2f ! (m ! c) < length ff \<and>
        c2e ! c < length ef \<and>
        (c + length ff + length ef, c2f ! c) \<in> set (zip s r) \<and>
        (c2f ! c, c + length ff + length ef) \<in> set (zip s r) \<and>
        (c + length ff + length ef, c2f ! (m ! c)) \<in> set (zip s r) \<and>
        (c2f ! (m ! c), c + length ff + length ef) \<in> set (zip s r) \<and>
        (c + length ff + length ef, c2e ! c + length ff) \<in> set (zip s r) \<and>
        (c2e ! c + length ff, c + length ff + length ef) \<in> set (zip s r) \<and>
        (c + length ff + length ef, c + length ff + length ef) \<in> set (zip s r) \<and>
        (c + length ff + length ef, m ! c + length ff + length ef) \<in> set (zip s r)"
  proof (intro allI impI)
    fix c assume c: "c < length cf"
    from f c assms(4) have 1: "c2f ! c < length ff \<and> c2f ! (m ! c) < length ff \<and>
        (c + length ff + length ef, c2f ! c) \<in> set (zip s r) \<and>
        (c2f ! c, c + length ff + length ef) \<in> set (zip s r) \<and>
        (c + length ff + length ef, c2f ! (m ! c)) \<in> set (zip s r) \<and>
        (c2f ! (m ! c), c + length ff + length ef) \<in> set (zip s r)" by simp
    from e c assms(6) have 2: "c2e ! c < length ef \<and>
        (c + length ff + length ef, c2e ! c + length ff) \<in> set (zip s r) \<and>
        (c2e ! c + length ff, c + length ff + length ef) \<in> set (zip s r)" by simp
    from i c have 3: "(c + length ff + length ef, c + length ff + length ef) \<in> set (zip s r)"
      by simp
    from mm c assms(5) have 4: "m ! c < length cf \<and>
        (c + length ff + length ef, m ! c + length ff + length ef) \<in> set (zip s r)" by simp
    from 1 2 3 4 show "c2f ! c < length ff \<and> m ! c < length cf \<and> c2f ! (m ! c) < length ff \<and>
        c2e ! c < length ef \<and>
        (c + length ff + length ef, c2f ! c) \<in> set (zip s r) \<and>
        (c2f ! c, c + length ff + length ef) \<in> set (zip s r) \<and>
        (c + length ff + length ef, c2f ! (m ! c)) \<in> set (zip s r) \<and>
        (c2f ! (m ! c), c + length ff + length ef) \<in> set (zip s r) \<and>
        (c + length ff + length ef, c2e ! c + length ff) \<in> set (zip s r) \<and>
        (c2e ! c + length ff, c + length ff + length ef) \<in> set (zip s r) \<and>
        (c + length ff + length ef, c + length ff + length ef) \<in> set (zip s r) \<and>
        (c + length ff + length ef, m ! c + length ff + length ef) \<in> set (zip s r)"
      by blast
  qed
  from d assms(5) have d': "drop (length s - length cf) (zip s r)
       = map (\<lambda>c. (c + length ff + length ef, m ! c + length ff + length ef)) [0..<length cf]"
    by simp
  from s r l all d' show ?thesis by blast
qed

theorem simple_edge_wiring_witness:
  "map_of test_arrays ''coedge_to_face'' = Some [0, 1] \<and>
   map_of test_arrays ''coedge_to_mate'' = Some [1, 0] \<and>
   map_of test_arrays ''coedge_to_edge'' = Some [0, 0] \<and>
   length [0::nat, 1] = length test_coedge_features \<and>
   length [1::nat, 0] = length test_coedge_features \<and>
   length [0::nat, 0] = length test_coedge_features \<and>
   simple_edge test_face_features test_edge_features test_coedge_features test_arrays =
     Inr [(''face_features'', Features [[0], [0]]), (''edge_features'', Features [[0]]),
          (''coedge_features'', Features [[0], [0]]),
          (''senders'', Ids [3, 0, 4, 1, 3, 1, 4, 0, 3, 2, 4, 2, 3, 4, 3, 4]),
          (''receivers'', Ids [0, 3, 1, 4, 1, 3, 0, 4, 2, 3, 2, 4, 3, 4, 4, 3])] \<and>
   (\<exists>(s::nat list) (r::nat list). map_of [(''face_features'', Features [[0], [0]]), (''edge_features'', Features [[0]]),
          (''coedge_features'', Features [[0], [0::real]]),
          (''senders'', Ids [3, 0, 4, 1, 3, 1, 4, 0, 3, 2, 4, 2, 3, 4, 3, 4]),
          (''receivers'', Ids [0, 3, 1, 4, 1, 3, 0, 4, 2, 3, 2, 4, 3, 4, 4, 3])] ''senders''
            = Some (Ids s) \<and>
      (4, 1) \<in> set (zip s r) \<and> (1, 4) \<in> set (zip s r) \<and> (4, 0) \<in> set (zip s r) \<and>
      (0, 4) \<in> set (zip s r) \<and> (4, 2) \<in> set (zip s r) \<and> (2, 4) \<in> set (zip s r) \<and>
      (4, 4) \<in> set (zip s r) \<and> (4, 3) \<in> set (zip s r))"
proof -
  let ?G = "[(''face_features'', Features [[0], [0]]), (''edge_features'', Features [[0]]),
          (''coedge_features'', Features [[0], [0::real]]),
          (''senders'', Ids [3, 0, 4, 1, 3, 1, 4, 0, 3, 2, 4, 2, 3, 4, 3, 4]),
          (''receivers'', Ids [0, 3, 1, 4, 1, 3, 0, 4, 2, 3, 2, 4, 3, 4, 4, 3])]"
  have a1: "map_of test_arrays ''coedge_to_face'' = Some [0, 1]"
    and a2: "map_of test_arrays ''coedge_to_mate'' = Some [1, 0]"
    and a3: "map_of test_arrays ''coedge_to_edge'' = Some [0, 0]"
    by (simp_all add: test_arrays_def)
  have l: "length test_face_features = 2" "length test_edge_features = 1"
    "length test_coedge_features = 2"
    by (simp_all add: test_face_features_def test_edge_features_def test_coedge_features_def)
  have l1: "length [0::nat, 1] = length test_coedge_features"
    and l2: "length [1::nat, 0] = length test_coedge_features"
    and l3: "length [0::nat, 0] = length test_coedge_features"
    by (simp_all add: l)
  have ev: "simple_edge test_face_features test_edge_features test_coedge_features test_arrays
      = Inr ?G"
    by code_simp
  from simple_edge_wiring [OF a1 a2 a3 l1 l2 l3 ev]
  obtain s r where s: "map_of ?G ''senders'' = Some (Ids s)"
    and f: "\<forall>c<length test_coedge_features.
        [0, 1] ! c < length test_face_features \<and> [1, 0] ! c < length test_coedge_features \<and>
        [0, 1] ! ([1, 0] ! c) < length test_face_features \<and>
        [0, 0] ! c < length test_edge_features \<and>
        (c + length test_face_features + length test_edge_features, [0, 1] ! c) \<in> set (zip s r) \<and>
        ([0, 1] ! c, c + length test_face_features + length test_edge_features) \<in> set (zip s r) \<and>
        (c + length test_face_features + length test_edge_features, [0, 1] ! ([1, 0] ! c))
           \<in> set (zip s r) \<and>
        ([0, 1] ! ([1, 0] ! c), c + length test_face_features + length test_edge_features)
           \<in> set (zip s r) \<and>
        (c + length test_face_features + length test_edge_features,
         [0, 0] ! c + length test_face_features) \<in> set (zip s r) \<and>
        ([0, 0] ! c + length test_face_features,
         c + length test_face_features + length test_edge_features) \<in> set (zip s r) \<and>
        (c + length test_face_features + length test_edge_features,
         c + length test_face_features + length test_edge_features) \<in> set (zip s r) \<and>
        (c + length test_face_features + length test_edge_features,
         [1, 0] ! c + length test_face_features + length test_edge_features) \<in> set (zip s r)"
    by blast
  have c1: "1 < length test_coedge_features" by (simp add: l)
  from f [rule_format, OF c1]
  have f1: "(4, 1) \<in> set (zip s r) \<and> (1, 4) \<in> set (zip s r) \<and> (4, 0) \<in> set (zip s r) \<and>
      (0, 4) \<in> set (zip s r) \<and> (4, 2) \<in> set (zip s r) \<and> (2, 4) \<in> set (zip s r) \<and>
      (4, 4) \<in> set (zip s r) \<and> (4, 3) \<in> set (zip s r)"
    by (simp add: l eval_nat_numeral)
  from s f1 have "\<exists>(s::nat list) (r::nat list). map_of ?G ''senders'' = Some (Ids s) \<and>
      (4, 1) \<in> set (zip s r) \<and> (1, 4) \<in> set (zip s r) \<and> (4, 0) \<in> set (zip s r) \<and>
      (0, 4) \<in> set (zip s r) \<and> (4, 2) \<in> set (zip s r) \<and> (2, 4) \<in> set (zip s r) \<and>
      (4, 4) \<in> set (zip s r) \<and> (4, 3) \<in> set (zip s r)"
    by blast
  with a1 a2 a3 l1 l2 l3 ev show ?thesis by blast
qed

text \<open>
  Claim C10 (edge count and emission order) as stated fails: with two coedge feature rows
  and arrays of length one \<^verbatim>\<open>simple_edge\<close> returns nine edges, not sixteen.
\<close>

theorem eight_edges_per_coedge_counterexample:
  "length test_coedge_features = 2 \<and>
   simple_edge test_face_features test_edge_features test_coedge_features short_arrays =
     Inr [(''face_features'', Features [[0], [0]]), (''edge_features'', Features [[0]]),
          (''coedge_features'', Features [[0], [0]]),
          (''senders'', Ids [3, 0, 3, 0, 3, 2, 3, 4, 3]),
          (''receivers'', Ids [0, 3, 0, 3, 2, 3, 3, 4, 3])] \<and>
   length [3, 0, 3, 0, 3, 2, 3, 4, 3 :: nat] \<noteq> 8 * length test_coedge_features"
  by code_simp

theorem simple_edge_emission_order_witness:
  "simple_edge test_face_features test_edge_features test_coedge_features test_arrays =
     Inr [(''face_features'', Features [[0], [0]]), (''edge_features'', Features [[0]]),
          (''coedge_features'', Features [[0], [0]]),
          (''senders'', Ids [3, 0, 4, 1, 3, 1, 4, 0, 3, 2, 4, 2, 3, 4, 3, 4]),
          (''receivers'', Ids [0, 3, 1, 4, 1, 3, 0, 4, 2, 3, 2, 4, 3, 4, 4, 3])] \<and>
   map fst (emission_order 2 1 2 [0, 1] [1, 0] [0, 0])
     = [3, 0, 4, 1, 3, 1, 4, 0, 3, 2, 4, 2, 3, 4, 3, 4] \<and>
   map snd (emission_order 2 1 2 [0, 1] [1, 0] [0, 0])
     = [0, 3, 1, 4, 1, 3, 0, 4, 2, 3, 2, 4, 3, 4, 4, 3] \<and>
   length (emission_order 2 1 2 [0, 1] [1, 0] [0, 0]) = 16"
proof -
  let ?G = "[(''face_features'', Features [[0], [0]]), (''edge_features'', Features [[0]]),
          (''coedge_features'', Features [[0], [0::real]]),
          (''senders'', Ids [3, 0, 4, 1, 3, 1, 4, 0, 3, 2, 4, 2, 3, 4, 3, 4]),
          (''receivers'', Ids [0, 3, 1, 4, 1, 3, 0, 4, 2, 3, 2, 4, 3, 4, 4, 3])]"
  have a1: "map_of test_arrays ''coedge_to_face'' = Some [0, 1]"
    and a2: "map_of test_arrays ''coedge_to_mate'' = Some [1, 0]"
    and a3: "map_of test_arrays ''coedge_to_edge'' = Some [0, 0]"
    by (simp_all add: test_arrays_def)
  have l: "length test_face_features = 2" "length test_edge_features = 1"
    "length test_coedge_features = 2"
    by (simp_all add: test_face_features_def test_edge_features_def test_coedge_features_def)
  have ev: "simple_edge test_face_features test_edge_features test_coedge_features test_arrays
      = Inr ?G"
    by code_simp
  have l1: "length [0::nat, 1] = length test_coedge_features"
    and l2: "length [1::nat, 0] = length test_coedge_features"
    and l3: "length [0::nat, 0] = length test_coedge_features"
    by (simp_all add: l)
  from simple_edge_emission_order [OF a1 a2 a3 l1 l2 l3 ev]
  show ?thesis using ev by (simp add: l)
qed

section \<open>The incidence builder: invariants\<close>

lemma np_setitem_length: "np_setitem xs p v = Inr ys \<Longrightarrow> length ys = length xs"
  by (cases "(xs, p, v)" rule: np_setitem.cases) (auto simp: setitem_eq_Inr)

lemma coedge_step_Inr:
  assumes "coedge_step body em x (f, p, ia) = Inr s'"
  obtains ci ei nxt where
    "map_of (oriented_edge_map em) x = Some ci"
    "edge_map em x = Some ei"
    "edge_map em (reversed_edge body x) = Some ei"
    "ci < length (mate ia)"
    "ci < length (coedge_to_edge ia)"
    "(case map_of (oriented_edge_map em) (reversed_edge body x) of None \<Rightarrow> ci | Some j \<Rightarrow> j)
       < length (coedge_to_edge ia)"
    "length nxt = length (next' ia)"
    "f = None \<Longrightarrow> nxt = next' ia"
    "f \<noteq> None \<Longrightarrow> np_setitem (next' ia) p (Some ci) = Inr nxt"
    "s' = (case f of None \<Rightarrow> Some ci | Some a \<Rightarrow> Some a, Some ci,
           ia\<lparr>next' := nxt,
              mate := (mate ia)[ci := (case map_of (oriented_edge_map em) (reversed_edge body x)
                                      of None \<Rightarrow> ci | Some j \<Rightarrow> j)],
              coedge_to_edge := (coedge_to_edge ia)
                [ci := ei,
                 (case map_of (oriented_edge_map em) (reversed_edge body x)
                    of None \<Rightarrow> ci | Some j \<Rightarrow> j) := ei]\<rparr>)"
  using assms
  unfolding coedge_step_def oriented_edge_index_def oriented_edge_exists_def edge_index_def
  by (auto simp: bind_err_eq_Inr lookup_eq_Inr setitem_eq_Inr
      split: if_splits option.splits dest: np_setitem_length)


lemma nth_update_twice:
  "k1 < length xs \<Longrightarrow> k2 < length xs \<Longrightarrow> i = k1 \<or> i = k2 \<Longrightarrow> xs[k1 := v, k2 := v] ! i = v"
  by (auto simp: nth_list_update)

lemma coedge_step_inv:
  assumes st: "coedge_step body em x (f, p, ia) = Inr (f', p', ia')"
    and inv: "wire_inv body em V ia"
  shows "wire_inv body em (insert x V) ia'"
proof -
  let ?idx = "map_of (oriented_edge_map em)"
  let ?rev = "reversed_edge body"
  let ?C = "coedges_num em"
  let ?mi = "\<lambda>y i. case ?idx (?rev y) of None \<Rightarrow> i | Some j \<Rightarrow> j"
  from st obtain ci ei nxt where
    ci: "?idx x = Some ci" and ei: "edge_map em x = Some ei"
    and rei: "edge_map em (?rev x) = Some ei"
    and cim: "ci < length (mate ia)"
    and mil: "?mi x ci < length (coedge_to_edge ia)"
    and nl: "length nxt = length (next' ia)"
    and ia': "ia' = ia\<lparr>next' := nxt, mate := (mate ia)[ci := ?mi x ci],
              coedge_to_edge := (coedge_to_edge ia)[ci := ei, ?mi x ci := ei]\<rparr>"
    by (rule coedge_step_Inr) auto
  from inv have len: "length (next' ia) = ?C" "length (mate ia) = ?C"
    "length (coedge_to_edge ia) = ?C" "length (coedge_to_face ia) = ?C"
    and a: "\<forall>i<?C. mate ia ! i = ?C \<or>
        (\<exists>y\<in>V. ?idx y = Some i \<and> mate ia ! i = ?mi y i \<and> edge_map em (?rev y) = edge_map em y)"
    and b: "\<forall>y\<in>V. \<exists>i<?C. ?idx y = Some i \<and> (\<exists>z\<in>V. ?idx z = Some i \<and> mate ia ! i = ?mi z i)"
    and c: "\<forall>i<?C. coedge_to_edge ia ! i = ?C \<or>
        (\<exists>y\<in>V. (?idx y = Some i \<or> ?idx (?rev y) = Some i) \<and>
           edge_map em y = Some (coedge_to_edge ia ! i) \<and> edge_map em (?rev y) = edge_map em y)"
    unfolding wire_inv_def by blast+
  have ciC: "ci < ?C" using cim len by simp
  have miC: "?mi x ci < ?C" using mil len by simp
  have mix: "?idx x = Some (?mi x ci) \<or> ?idx (?rev x) = Some (?mi x ci)"
    using ci by (cases "?idx (?rev x)") auto
  have a': "\<forall>i<?C. mate ia' ! i = ?C \<or>
        (\<exists>y\<in>insert x V. ?idx y = Some i \<and> mate ia' ! i = ?mi y i
           \<and> edge_map em (?rev y) = edge_map em y)"
  proof (intro allI impI)
    fix i assume i: "i < ?C"
    show "mate ia' ! i = ?C \<or>
        (\<exists>y\<in>insert x V. ?idx y = Some i \<and> mate ia' ! i = ?mi y i
           \<and> edge_map em (?rev y) = edge_map em y)"
    proof (cases "i = ci")
      case True
      have "mate ia' ! ci = ?mi x ci" using ia' cim by simp
      then show ?thesis unfolding True using ci ei rei by auto
    next
      case False
      then have "mate ia' ! i = mate ia ! i" using ia' by simp
      then show ?thesis using a i by auto
    qed
  qed
  have b': "\<forall>y\<in>insert x V. \<exists>i<?C. ?idx y = Some i \<and>
      (\<exists>z\<in>insert x V. ?idx z = Some i \<and> mate ia' ! i = ?mi z i)"
  proof
    fix y assume y: "y \<in> insert x V"
    have xx: "\<exists>z\<in>insert x V. ?idx z = Some ci \<and> mate ia' ! ci = ?mi z ci"
      using ia' cim ci by auto
    show "\<exists>i<?C. ?idx y = Some i \<and> (\<exists>z\<in>insert x V. ?idx z = Some i \<and> mate ia' ! i = ?mi z i)"
    proof (cases "?idx y = Some ci")
      case True
      then show ?thesis using ciC xx by blast
    next
      case False
      then have "y \<in> V" using y ci by auto
      with b obtain i z where i: "i < ?C" "?idx y = Some i" "z \<in> V" "?idx z = Some i"
        "mate ia ! i = ?mi z i" by blast
      then have "i \<noteq> ci" using False by auto
      then have "mate ia' ! i = mate ia ! i" using ia' by simp
      then show ?thesis using i by auto
    qed
  qed
  have c': "\<forall>i<?C. coedge_to_edge ia' ! i = ?C \<or>
        (\<exists>y\<in>insert x V. (?idx y = Some i \<or> ?idx (?rev y) = Some i) \<and>
           edge_map em y = Some (coedge_to_edge ia' ! i) \<and> edge_map em (?rev y) = edge_map em y)"
  proof (intro allI impI)
    fix i assume i: "i < ?C"
    have e': "coedge_to_edge ia' = (coedge_to_edge ia)[ci := ei, ?mi x ci := ei]"
      using ia' by simp
    show "coedge_to_edge ia' ! i = ?C \<or>
        (\<exists>y\<in>insert x V. (?idx y = Some i \<or> ?idx (?rev y) = Some i) \<and>
           edge_map em y = Some (coedge_to_edge ia' ! i) \<and> edge_map em (?rev y) = edge_map em y)"
    proof (cases "i = ci \<or> i = ?mi x ci")
      case True
      have "(coedge_to_edge ia)[ci := ei, ?mi x ci := ei] ! i = ei"
        by (rule nth_update_twice) (use True ciC miC len in simp_all)
      then have "coedge_to_edge ia' ! i = ei"
        using e' by simp
      moreover have "?idx x = Some i \<or> ?idx (?rev x) = Some i" using True ci mix by auto
      ultimately show ?thesis using ei rei by auto
    next
      case False
      then have "coedge_to_edge ia' ! i = coedge_to_edge ia ! i" using e' by simp
      then show ?thesis using c i by auto
    qed
  qed
  have len': "length (next' ia') = ?C" "length (mate ia') = ?C"
    "length (coedge_to_edge ia') = ?C" "length (coedge_to_face ia') = ?C"
    using ia' len nl by simp_all
  show ?thesis unfolding wire_inv_def using len' a' b' c' by blast
qed

lemma wire_inv_mono_next:
  "wire_inv body em V ia \<Longrightarrow> length nxt = length (next' ia)
     \<Longrightarrow> wire_inv body em V (ia\<lparr>next' := nxt\<rparr>)"
  unfolding wire_inv_def by simp

lemma wire_inv_mono_face:
  "wire_inv body em V ia \<Longrightarrow> length c2f = length (coedge_to_face ia)
     \<Longrightarrow> wire_inv body em V (ia\<lparr>coedge_to_face := c2f\<rparr>)"
  unfolding wire_inv_def by simp

lemma wire_loop_inv:
  "wire_loop body em cs (f, p, ia) = Inr (f', p', ia') \<Longrightarrow> wire_inv body em V ia
     \<Longrightarrow> wire_inv body em (V \<union> set cs) ia'"
proof (induction cs arbitrary: f p ia V)
  case Nil
  then show ?case by simp
next
  case (Cons x cs)
  from Cons.prems(1) obtain f1 p1 ia1 where
    s1: "coedge_step body em x (f, p, ia) = Inr (f1, p1, ia1)"
    and r: "wire_loop body em cs (f1, p1, ia1) = Inr (f', p', ia')"
    by (auto simp: bind_err_eq_Inr)
  from coedge_step_inv [OF s1 Cons.prems(2)] have "wire_inv body em (insert x V) ia1" .
  from Cons.IH [OF r this] show ?case by simp
qed

lemma wire_body_inv:
  assumes "wire_body body em w ia = Inr ia'" and "wire_inv body em V ia"
  shows "wire_inv body em (V \<union> set w) ia'"
proof -
  from assms(1) obtain f p ia1 nxt where
    l: "wire_loop body em w (None, None, ia) = Inr (f, p, ia1)"
    and n: "np_setitem (next' ia1) p f = Inr nxt" and e: "ia' = ia1\<lparr>next' := nxt\<rparr>"
    unfolding wire_body_def by (auto simp: bind_err_eq_Inr)
  from wire_loop_inv [OF l assms(2)] have "wire_inv body em (V \<union> set w) ia1" .
  then show ?thesis unfolding e using np_setitem_length [OF n] by (rule wire_inv_mono_next)
qed

lemma wires_loop_inv:
  "wires_loop body em ws ia = Inr ia' \<Longrightarrow> wire_inv body em V ia
     \<Longrightarrow> wire_inv body em (V \<union> set (concat ws)) ia'"
proof (induction ws arbitrary: ia V)
  case Nil
  then show ?case by simp
next
  case (Cons w ws)
  from Cons.prems(1) obtain ia1 where
    s1: "wire_body body em w ia = Inr ia1" and r: "wires_loop body em ws ia1 = Inr ia'"
    by (auto simp: bind_err_eq_Inr)
  from Cons.IH [OF r wire_body_inv [OF s1 Cons.prems(2)]]
  show ?case by (simp add: Un_assoc)
qed

lemma wire_inv_init:
  "wire_inv body em {}
     \<lparr>next' = initializer (coedges_num em), mate = initializer (coedges_num em),
      coedge_to_face = initializer (coedges_num em),
      coedge_to_edge = initializer (coedges_num em)\<rparr>"
  unfolding wire_inv_def initializer_def by simp

lemma face_coedges_loop_Inr:
  "face_coedges_loop em fi cs c2f = Inr c2f' \<Longrightarrow>
     length c2f' = length c2f \<and> (\<forall>i<length c2f. c2f' ! i = c2f ! i \<or> c2f' ! i = fi)"
proof (induction cs arbitrary: c2f)
  case Nil
  then show ?case by simp
next
  case (Cons x cs)
  from Cons.prems obtain ci where ci: "ci < length c2f"
    and r: "face_coedges_loop em fi cs (c2f[ci := fi]) = Inr c2f'"
    by (auto simp: bind_err_eq_Inr setitem_eq_Inr)
  from Cons.IH [OF r] have l: "length c2f' = length c2f"
    and e: "\<forall>i<length c2f. c2f' ! i = c2f[ci := fi] ! i \<or> c2f' ! i = fi" by auto
  show ?case
  proof (intro conjI allI impI)
    show "length c2f' = length c2f" by (rule l)
  next
    fix i assume i: "i < length c2f"
    with e have "c2f' ! i = c2f[ci := fi] ! i \<or> c2f' ! i = fi" by simp
    then show "c2f' ! i = c2f ! i \<or> c2f' ! i = fi"
      using i by (cases "i = ci") auto
  qed
qed

lemma face_wires_loop_Inr:
  "face_wires_loop em fi ws c2f = Inr c2f' \<Longrightarrow>
     length c2f' = length c2f \<and> (\<forall>i<length c2f. c2f' ! i = c2f ! i \<or> c2f' ! i = fi)"
proof (induction ws arbitrary: c2f)
  case Nil
  then show ?case by simp
next
  case (Cons w ws)
  from Cons.prems obtain c1 where s1: "face_coedges_loop em fi w c2f = Inr c1"
    and r: "face_wires_loop em fi ws c1 = Inr c2f'"
    by (auto simp: bind_err_eq_Inr)
  from face_coedges_loop_Inr [OF s1] have l1: "length c1 = length c2f"
    and e1: "\<forall>i<length c2f. c1 ! i = c2f ! i \<or> c1 ! i = fi" by auto
  from Cons.IH [OF r] have l2: "length c2f' = length c1"
    and e2: "\<forall>i<length c1. c2f' ! i = c1 ! i \<or> c2f' ! i = fi" by auto
  show ?case
  proof (intro conjI allI impI)
    show "length c2f' = length c2f" using l1 l2 by simp
  next
    fix i assume i: "i < length c2f"
    from e2 i l1 have "c2f' ! i = c1 ! i \<or> c2f' ! i = fi" by simp
    moreover from e1 i have "c1 ! i = c2f ! i \<or> c1 ! i = fi" by simp
    ultimately show "c2f' ! i = c2f ! i \<or> c2f' ! i = fi" by auto
  qed
qed

lemma faces_loop_Inr:
  "faces_loop body em fs c2f = Inr c2f' \<Longrightarrow>
     length c2f' = length c2f \<and>
     (\<forall>i<length c2f. c2f' ! i = c2f ! i \<or> (\<exists>f\<in>set fs. face_map em f = Some (c2f' ! i)))"
proof (induction fs arbitrary: c2f)
  case Nil
  then show ?case by simp
next
  case (Cons f fs)
  from Cons.prems obtain fi c1 where fi: "face_map em f = Some fi"
    and s1: "face_wires_loop em fi (wires_from_face body f) c2f = Inr c1"
    and r: "faces_loop body em fs c1 = Inr c2f'"
    by (auto simp: bind_err_eq_Inr face_index_def lookup_eq_Inr)
  from face_wires_loop_Inr [OF s1] have l1: "length c1 = length c2f"
    and e1: "\<forall>i<length c2f. c1 ! i = c2f ! i \<or> c1 ! i = fi" by auto
  from Cons.IH [OF r] have l2: "length c2f' = length c1"
    and e2: "\<forall>i<length c1. c2f' ! i = c1 ! i \<or> (\<exists>f\<in>set fs. face_map em f = Some (c2f' ! i))"
    by auto
  show ?case
  proof (intro conjI allI impI)
    show "length c2f' = length c2f" using l1 l2 by simp
  next
    fix i assume i: "i < length c2f"
    from e2 i l1 have "c2f' ! i = c1 ! i \<or> (\<exists>f\<in>set fs. face_map em f = Some (c2f' ! i))"
      by simp
    moreover from e1 i have "c1 ! i = c2f ! i \<or> c1 ! i = fi" by simp
    ultimately show "c2f' ! i = c2f ! i \<or> (\<exists>g\<in>set (f # fs). face_map em g = Some (c2f' ! i))"
      using fi by auto
  qed
qed

lemma coedge_step_face:
  "coedge_step body em x (f, p, ia) = Inr (f', p', ia') \<Longrightarrow> coedge_to_face ia' = coedge_to_face ia"
  by (erule coedge_step_Inr) auto

lemma wire_loop_face:
  "wire_loop body em cs (f, p, ia) = Inr (f', p', ia') \<Longrightarrow> coedge_to_face ia' = coedge_to_face ia"
proof (induction cs arbitrary: f p ia)
  case Nil
  then show ?case by simp
next
  case (Cons x cs)
  from Cons.prems obtain f1 p1 ia1 where
    s1: "coedge_step body em x (f, p, ia) = Inr (f1, p1, ia1)"
    and r: "wire_loop body em cs (f1, p1, ia1) = Inr (f', p', ia')"
    by (auto simp: bind_err_eq_Inr)
  from Cons.IH [OF r] coedge_step_face [OF s1] show ?case by simp
qed

lemma wire_body_face:
  "wire_body body em w ia = Inr ia' \<Longrightarrow> coedge_to_face ia' = coedge_to_face ia"
  unfolding wire_body_def by (auto simp: bind_err_eq_Inr dest: wire_loop_face)

lemma wires_loop_face:
  "wires_loop body em ws ia = Inr ia' \<Longrightarrow> coedge_to_face ia' = coedge_to_face ia"
  by (induction ws arbitrary: ia) (auto simp: bind_err_eq_Inr dest: wire_body_face)

lemma fill_arrays_Inr:
  assumes "fill_arrays body em = Inr raw"
  shows "wire_inv body em (set (concat (wires body))) raw"
    and "\<forall>i<coedges_num em. coedge_to_face raw ! i = coedges_num em \<or>
           (\<exists>f\<in>set (faces body). face_map em f = Some (coedge_to_face raw ! i))"
proof -
  let ?init = "\<lparr>next' = initializer (coedges_num em), mate = initializer (coedges_num em),
      coedge_to_face = initializer (coedges_num em),
      coedge_to_edge = initializer (coedges_num em)\<rparr>"
  from assms obtain ia c2f where w: "wires_loop body em (wires body) ?init = Inr ia"
    and f: "faces_loop body em (faces body) (coedge_to_face ia) = Inr c2f"
    and raw: "raw = ia\<lparr>coedge_to_face := c2f\<rparr>"
    unfolding fill_arrays_def by (auto simp: bind_err_eq_Inr)
  from wires_loop_inv [OF w wire_inv_init] have inv: "wire_inv body em (set (concat (wires body))) ia"
    by simp
  from faces_loop_Inr [OF f] have l: "length c2f = length (coedge_to_face ia)"
    and e: "\<forall>i<length (coedge_to_face ia). c2f ! i = coedge_to_face ia ! i \<or>
             (\<exists>f\<in>set (faces body). face_map em f = Some (c2f ! i))" by auto
  show "wire_inv body em (set (concat (wires body))) raw"
    unfolding raw using inv l by (rule wire_inv_mono_face)
  have unchanged: "coedge_to_face ia = initializer (coedges_num em)"
    using wires_loop_face [OF w] by simp
  show "\<forall>i<coedges_num em. coedge_to_face raw ! i = coedges_num em \<or>
           (\<exists>f\<in>set (faces body). face_map em f = Some (coedge_to_face raw ! i))"
    using e unfolding raw unchanged initializer_def by simp
qed


lemma validate_Inr:
  "validate n ia = Inr ia' \<longleftrightarrow>
     ia' = ia \<and> list_all (\<lambda>v. v < n) (next' ia) \<and> list_all (\<lambda>v. v < n) (mate ia) \<and>
     list_all (\<lambda>v. v < n) (coedge_to_face ia) \<and> list_all (\<lambda>v. v < n) (coedge_to_edge ia)"
  unfolding validate_def by auto

lemma validate_Inl: "validate n ia = Inl e \<Longrightarrow> \<exists>a. e = AssertionError a \<and>
    a \<in> {NextWithoutNext, MateWithoutMate, FaceRelation, EdgeRelation}"
  unfolding validate_def by (auto split: if_splits)

lemma build_Inr:
  "build_incidence_arrays body em = Inr ia \<longleftrightarrow>
     fill_arrays body em = Inr ia \<and>
     list_all (\<lambda>v. v < coedges_num em) (next' ia) \<and>
     list_all (\<lambda>v. v < coedges_num em) (mate ia) \<and>
     list_all (\<lambda>v. v < coedges_num em) (coedge_to_face ia) \<and>
     list_all (\<lambda>v. v < coedges_num em) (coedge_to_edge ia)"
  unfolding build_incidence_arrays_def by (auto simp: bind_err_eq_Inr validate_Inr)

lemma list_all_nth: "list_all P xs \<Longrightarrow> i < length xs \<Longrightarrow> P (xs ! i)"
  by (simp add: list_all_length)

lemma unique_ids:
  assumes "distinct (map snd m)" and "map_of m a = Some k" and "map_of m b = Some k"
  shows "a = b"
proof -
  from assms(2,3) have "(a, k) \<in> set m" "(b, k) \<in> set m" by (auto dest: map_of_SomeD)
  moreover from assms(1) have "inj_on snd (set m)" by (simp add: distinct_map)
  ultimately have "(a, k) = (b, k)" by (rule inj_onD [rotated 2]) simp_all
  then show ?thesis by simp
qed

lemma built_facts:
  assumes "build_incidence_arrays body em = Inr ia"
  shows "wire_inv body em (set (concat (wires body))) ia"
    and "\<And>i. i < coedges_num em \<Longrightarrow> next' ia ! i < coedges_num em"
    and "\<And>i. i < coedges_num em \<Longrightarrow> mate ia ! i < coedges_num em"
    and "\<And>i. i < coedges_num em \<Longrightarrow> coedge_to_face ia ! i < coedges_num em"
    and "\<And>i. i < coedges_num em \<Longrightarrow> coedge_to_edge ia ! i < coedges_num em"
    and "\<And>i. i < coedges_num em \<Longrightarrow>
           \<exists>f\<in>set (faces body). face_map em f = Some (coedge_to_face ia ! i)"
proof -
  from assms have fill: "fill_arrays body em = Inr ia"
    and v: "list_all (\<lambda>v. v < coedges_num em) (next' ia)"
      "list_all (\<lambda>v. v < coedges_num em) (mate ia)"
      "list_all (\<lambda>v. v < coedges_num em) (coedge_to_face ia)"
      "list_all (\<lambda>v. v < coedges_num em) (coedge_to_edge ia)"
    by (simp_all add: build_Inr)
  show inv: "wire_inv body em (set (concat (wires body))) ia"
    by (rule fill_arrays_Inr(1) [OF fill])
  then have len: "length (next' ia) = coedges_num em" "length (mate ia) = coedges_num em"
    "length (coedge_to_edge ia) = coedges_num em" "length (coedge_to_face ia) = coedges_num em"
    unfolding wire_inv_def by simp_all
  show "\<And>i. i < coedges_num em \<Longrightarrow> next' ia ! i < coedges_num em"
    using list_all_nth [OF v(1)] len by simp
  show "\<And>i. i < coedges_num em \<Longrightarrow> mate ia ! i < coedges_num em"
    using list_all_nth [OF v(2)] len by simp
  show f: "\<And>i. i < coedges_num em \<Longrightarrow> coedge_to_face ia ! i < coedges_num em"
    using list_all_nth [OF v(3)] len by simp
  show "\<And>i. i < coedges_num em \<Longrightarrow> coedge_to_edge ia ! i < coedges_num em"
    using list_all_nth [OF v(4)] len by simp
  show "\<And>i. i < coedges_num em \<Longrightarrow>
           \<exists>f\<in>set (faces body). face_map em f = Some (coedge_to_face ia ! i)"
    using fill_arrays_Inr(2) [OF fill] f by fastforce
qed

lemma built_mate:
  assumes "build_incidence_arrays body em = Inr ia" and "i < coedges_num em"
  obtains x where "x \<in> set (concat (wires body))"
    and "map_of (oriented_edge_map em) x = Some i"
    and "mate ia ! i = (case map_of (oriented_edge_map em) (reversed_edge body x) of
                          None \<Rightarrow> i | Some j \<Rightarrow> j)"
    and "edge_map em (reversed_edge body x) = edge_map em x"
proof -
  from built_facts(1) [OF assms(1)] assms(2)
  have "mate ia ! i = coedges_num em \<or>
        (\<exists>x\<in>set (concat (wires body)). map_of (oriented_edge_map em) x = Some i \<and>
           mate ia ! i = (case map_of (oriented_edge_map em) (reversed_edge body x) of
                            None \<Rightarrow> i | Some j \<Rightarrow> j) \<and>
           edge_map em (reversed_edge body x) = edge_map em x)"
    unfolding wire_inv_def by blast
  moreover have "mate ia ! i \<noteq> coedges_num em"
    using built_facts(3) [OF assms] by simp
  ultimately show ?thesis using that by blast
qed

lemma built_edge:
  assumes "build_incidence_arrays body em = Inr ia" and "i < coedges_num em"
  obtains y where "y \<in> set (concat (wires body))"
    and "map_of (oriented_edge_map em) y = Some i \<or>
         map_of (oriented_edge_map em) (reversed_edge body y) = Some i"
    and "edge_map em y = Some (coedge_to_edge ia ! i)"
    and "edge_map em (reversed_edge body y) = edge_map em y"
proof -
  from built_facts(1) [OF assms(1)] assms(2)
  have "coedge_to_edge ia ! i = coedges_num em \<or>
        (\<exists>x\<in>set (concat (wires body)). (map_of (oriented_edge_map em) x = Some i \<or>
                  map_of (oriented_edge_map em) (reversed_edge body x) = Some i) \<and>
           edge_map em x = Some (coedge_to_edge ia ! i) \<and>
           edge_map em (reversed_edge body x) = edge_map em x)"
    unfolding wire_inv_def by blast
  moreover have "coedge_to_edge ia ! i \<noteq> coedges_num em"
    using built_facts(5) [OF assms] by simp
  ultimately show ?thesis using that by blast
qed

lemma built_edge_of_id:
  assumes b: "build_incidence_arrays body em = Inr ia" and i: "i < coedges_num em"
    and u: "distinct (map snd (oriented_edge_map em))"
    and z: "map_of (oriented_edge_map em) z = Some i"
  shows "edge_map em z = Some (coedge_to_edge ia ! i)"
proof -
  from built_edge [OF b i] obtain y where
    y: "map_of (oriented_edge_map em) y = Some i \<or>
        map_of (oriented_edge_map em) (reversed_edge body y) = Some i"
    and e: "edge_map em y = Some (coedge_to_edge ia ! i)"
    and r: "edge_map em (reversed_edge body y) = edge_map em y" by blast
  from y show ?thesis
  proof
    assume "map_of (oriented_edge_map em) y = Some i"
    then have "z = y" using unique_ids [OF u z] by simp
    then show ?thesis using e by simp
  next
    assume "map_of (oriented_edge_map em) (reversed_edge body y) = Some i"
    then have "z = reversed_edge body y" using unique_ids [OF u z] by simp
    then show ?thesis using e r by simp
  qed
qed

text \<open>
  Claim C6 (mate and edge agreement): for every body on which
  \<^verbatim>\<open>build_incidence_arrays\<close> succeeds and every coedge \<open>c\<close>,
  \<open>coedge_to_edge[c] = coedge_to_edge[mate[c]]\<close>. The entity mapper is the library's:
  its ids are unique, no two coedges of \<^verbatim>\<open>oriented_edge_map\<close> share an id.
\<close>

theorem mate_shares_edge:
  assumes b: "build_incidence_arrays body em = Inr ia"
    and u: "distinct (map snd (oriented_edge_map em))"
    and c: "c < coedges_num em"
  shows "mate ia ! c < length (coedge_to_edge ia) \<and>
         coedge_to_edge ia ! c = coedge_to_edge ia ! (mate ia ! c)"
proof -
  have len: "length (coedge_to_edge ia) = coedges_num em"
    using built_facts(1) [OF b] unfolding wire_inv_def by simp
  have mC: "mate ia ! c < coedges_num em" by (rule built_facts(3) [OF b c])
  from built_mate [OF b c] obtain x where
    x: "map_of (oriented_edge_map em) x = Some c"
    and m: "mate ia ! c = (case map_of (oriented_edge_map em) (reversed_edge body x) of
                          None \<Rightarrow> c | Some j \<Rightarrow> j)"
    and r: "edge_map em (reversed_edge body x) = edge_map em x" by blast
  have "coedge_to_edge ia ! c = coedge_to_edge ia ! (mate ia ! c)"
  proof (cases "map_of (oriented_edge_map em) (reversed_edge body x)")
    case None
    then show ?thesis using m by simp
  next
    case (Some j)
    then have j: "mate ia ! c = j" using m by simp
    have "edge_map em (reversed_edge body x) = Some (coedge_to_edge ia ! j)"
      using built_edge_of_id [OF b _ u Some] mC j by simp
    moreover have "edge_map em x = Some (coedge_to_edge ia ! c)"
      by (rule built_edge_of_id [OF b c u x])
    ultimately show ?thesis using r j by simp
  qed
  then show ?thesis using mC len by simp
qed

text \<open>
  Claim C7 (mating is an involution): for every body on which
  \<^verbatim>\<open>build_incidence_arrays\<close> succeeds and every coedge \<open>c\<close>,
  \<open>mate[mate[c]] = c\<close>; this covers the coedges with \<open>mate[c] \<noteq> c\<close> and the
  self-mates, which are fixed points. The library's contract: ids are unique, and
  reversing a coedge twice gives the coedge back.
\<close>

theorem mate_involution:
  assumes b: "build_incidence_arrays body em = Inr ia"
    and u: "distinct (map snd (oriented_edge_map em))"
    and inv: "list_all (\<lambda>x. reversed_edge body (reversed_edge body x) = x) (concat (wires body))"
    and c: "c < coedges_num em"
  shows "mate ia ! c < length (mate ia) \<and> mate ia ! (mate ia ! c) = c"
proof -
  have len: "length (mate ia) = coedges_num em"
    using built_facts(1) [OF b] unfolding wire_inv_def by simp
  have mC: "mate ia ! c < coedges_num em" by (rule built_facts(3) [OF b c])
  from built_mate [OF b c] obtain x where xV: "x \<in> set (concat (wires body))"
    and x: "map_of (oriented_edge_map em) x = Some c"
    and m: "mate ia ! c = (case map_of (oriented_edge_map em) (reversed_edge body x) of
                          None \<Rightarrow> c | Some j \<Rightarrow> j)" by blast
  have rr: "reversed_edge body (reversed_edge body x) = x"
    using inv xV unfolding list_all_iff by blast
  have "mate ia ! (mate ia ! c) = c"
  proof (cases "map_of (oriented_edge_map em) (reversed_edge body x)")
    case None
    then show ?thesis using m by simp
  next
    case (Some j)
    then have j: "mate ia ! c = j" using m by simp
    then have jC: "j < coedges_num em" using mC by simp
    from built_mate [OF b jC] obtain y where
      y: "map_of (oriented_edge_map em) y = Some j"
      and my: "mate ia ! j = (case map_of (oriented_edge_map em) (reversed_edge body y) of
                          None \<Rightarrow> j | Some k \<Rightarrow> k)" by blast
    have "y = reversed_edge body x" by (rule unique_ids [OF u y Some])
    then have "map_of (oriented_edge_map em) (reversed_edge body y) = Some c"
      using rr x by simp
    then show ?thesis using my j by simp
  qed
  then show ?thesis using mC len by simp
qed

lemma pole_build:
  "build_incidence_arrays pole_body pole_mapper =
     Inr \<lparr>next' = [1, 2, 0, 4, 3], mate = [3, 4, 2, 0, 1],
          coedge_to_face = [0, 0, 0, 1, 1], coedge_to_edge = [0, 1, 2, 0, 1]\<rparr>"
  by code_simp

theorem mate_shares_edge_witness:
  "build_incidence_arrays pole_body pole_mapper =
     Inr \<lparr>next' = [1, 2, 0, 4, 3], mate = [3, 4, 2, 0, 1],
          coedge_to_face = [0, 0, 0, 1, 1], coedge_to_edge = [0, 1, 2, 0, 1]\<rparr> \<and>
   distinct (map snd (oriented_edge_map pole_mapper)) \<and>
   1 < coedges_num pole_mapper \<and>
   [3, 4, 2, 0, 1 :: nat] ! 1 < length [0, 1, 2, 0, 1 :: nat] \<and>
   [0, 1, 2, 0, 1 :: nat] ! 1 = [0, 1, 2, 0, 1] ! ([3, 4, 2, 0, 1] ! 1)"
proof -
  have u: "distinct (map snd (oriented_edge_map pole_mapper))"
    by (simp add: pole_mapper_def)
  have c: "1 < coedges_num pole_mapper"
    by (simp add: pole_mapper_def coedges_num_def)
  from mate_shares_edge [OF pole_build u c] show ?thesis
    using pole_build u c by simp
qed

theorem mate_involution_witness:
  "build_incidence_arrays pole_body pole_mapper =
     Inr \<lparr>next' = [1, 2, 0, 4, 3], mate = [3, 4, 2, 0, 1],
          coedge_to_face = [0, 0, 0, 1, 1], coedge_to_edge = [0, 1, 2, 0, 1]\<rparr> \<and>
   distinct (map snd (oriented_edge_map pole_mapper)) \<and>
   list_all (\<lambda>x. reversed_edge pole_body (reversed_edge pole_body x) = x)
     (concat (wires pole_body)) \<and>
   1 < coedges_num pole_mapper \<and>
   [3, 4, 2, 0, 1 :: nat] ! 1 < length [3, 4, 2, 0, 1 :: nat] \<and>
   [3, 4, 2, 0, 1 :: nat] ! ([3, 4, 2, 0, 1] ! 1) = 1"
proof -
  have u: "distinct (map snd (oriented_edge_map pole_mapper))"
    by (simp add: pole_mapper_def)
  have r: "list_all (\<lambda>x. reversed_edge pole_body (reversed_edge pole_body x) = x)
     (concat (wires pole_body))"
    by (simp add: pole_body_def flip_def)
  have c: "1 < coedges_num pole_mapper"
    by (simp add: pole_mapper_def coedges_num_def)
  from mate_involution [OF pole_build u r c] show ?thesis
    using pole_build u r c by simp
qed

lemma build_not_visited:
  assumes i: "i < coedges_num em"
    and n: "\<forall>x\<in>set (concat (wires body)). map_of (oriented_edge_map em) x \<noteq> Some i"
  shows "\<exists>e. build_incidence_arrays body em = Inl e"
proof (cases "build_incidence_arrays body em")
  case (Inl e)
  then show ?thesis by blast
next
  case (Inr ia)
  from built_mate [OF Inr i] obtain x where "x \<in> set (concat (wires body))"
    "map_of (oriented_edge_map em) x = Some i" by blast
  with n show ?thesis by blast
qed

lemma sentinel_fails:
  assumes f: "fill_arrays body em = Inr raw"
    and s: "coedges_num em \<in> set (next' raw) \<union> set (mate raw) \<union> set (coedge_to_face raw)
              \<union> set (coedge_to_edge raw)"
  shows "\<exists>a. build_incidence_arrays body em = Inl (AssertionError a)"
proof -
  have b: "build_incidence_arrays body em = validate (coedges_num em) raw"
    unfolding build_incidence_arrays_def f by simp
  have "\<not> (list_all (\<lambda>v. v < coedges_num em) (next' raw) \<and>
            list_all (\<lambda>v. v < coedges_num em) (mate raw) \<and>
            list_all (\<lambda>v. v < coedges_num em) (coedge_to_face raw) \<and>
            list_all (\<lambda>v. v < coedges_num em) (coedge_to_edge raw))"
    using s unfolding list_all_iff by auto
  then have "\<forall>ia. validate (coedges_num em) raw \<noteq> Inr ia"
    unfolding validate_Inr by blast
  then obtain e where e: "validate (coedges_num em) raw = Inl e"
    by (cases "validate (coedges_num em) raw") auto
  from validate_Inl [OF e] obtain a where "e = AssertionError a" by blast
  with e b show ?thesis by simp
qed

text \<open>
  Claim C4 (builder validation gate): \<^verbatim>\<open>build_incidence_arrays\<close> returns only arrays
  of the length of the coedge count in which no entry is the initial value (the coedge
  count), and every entry of a returned result is a valid id of its kind: \<open>next\<close> and
  \<open>mate\<close> entries below the coedge count, \<open>coedge_to_face\<close> entries below the face
  count \<open>F\<close>, \<open>coedge_to_edge\<close> entries below the edge count \<open>E\<close>. The counts
  \<open>F\<close> and \<open>E\<close> are the library's: every face id the mapper hands out for a face of
  the body is below \<open>F\<close>, every edge id for a coedge of a wire is below \<open>E\<close>. If the
  loops end with an entry still at the initial value, the function fails with an
  assertion error; in particular it fails whenever some id below the coedge count belongs
  to no coedge of any wire.
\<close>

theorem build_validation_gate:
  assumes faces_ok: "list_all (\<lambda>f. case face_map em f of None \<Rightarrow> True | Some v \<Rightarrow> v < F)
        (faces body)"
    and edges_ok: "list_all (\<lambda>x. case edge_map em x of None \<Rightarrow> True | Some v \<Rightarrow> v < E)
        (concat (wires body))"
  shows "(build_incidence_arrays body em = Inr ia \<longrightarrow>
           length (next' ia) = coedges_num em \<and> length (mate ia) = coedges_num em \<and>
           length (coedge_to_face ia) = coedges_num em \<and>
           length (coedge_to_edge ia) = coedges_num em \<and>
           coedges_num em \<notin> set (next' ia) \<union> set (mate ia) \<union> set (coedge_to_face ia)
              \<union> set (coedge_to_edge ia) \<and>
           (\<forall>i<coedges_num em. next' ia ! i < coedges_num em \<and> mate ia ! i < coedges_num em \<and>
              coedge_to_face ia ! i < F \<and> coedge_to_edge ia ! i < E)) \<and>
         (fill_arrays body em = Inr raw \<and>
            coedges_num em \<in> set (next' raw) \<union> set (mate raw) \<union> set (coedge_to_face raw)
              \<union> set (coedge_to_edge raw)
          \<longrightarrow> (\<exists>a. build_incidence_arrays body em = Inl (AssertionError a))) \<and>
         (k < coedges_num em \<and>
            (\<forall>x\<in>set (concat (wires body)). map_of (oriented_edge_map em) x \<noteq> Some k)
          \<longrightarrow> (\<exists>e. build_incidence_arrays body em = Inl e))"
proof (intro conjI impI)
  assume b: "build_incidence_arrays body em = Inr ia"
  have len: "length (next' ia) = coedges_num em" "length (mate ia) = coedges_num em"
    "length (coedge_to_edge ia) = coedges_num em" "length (coedge_to_face ia) = coedges_num em"
    using built_facts(1) [OF b] unfolding wire_inv_def by simp_all
  show "length (next' ia) = coedges_num em" "length (mate ia) = coedges_num em"
    "length (coedge_to_face ia) = coedges_num em" "length (coedge_to_edge ia) = coedges_num em"
    using len by simp_all
  from b have v: "list_all (\<lambda>v. v < coedges_num em) (next' ia)"
      "list_all (\<lambda>v. v < coedges_num em) (mate ia)"
      "list_all (\<lambda>v. v < coedges_num em) (coedge_to_face ia)"
      "list_all (\<lambda>v. v < coedges_num em) (coedge_to_edge ia)"
    by (simp_all add: build_Inr)
  show "coedges_num em \<notin> set (next' ia) \<union> set (mate ia) \<union> set (coedge_to_face ia)
              \<union> set (coedge_to_edge ia)"
    using v unfolding list_all_iff by auto
  show "\<forall>i<coedges_num em. next' ia ! i < coedges_num em \<and> mate ia ! i < coedges_num em \<and>
              coedge_to_face ia ! i < F \<and> coedge_to_edge ia ! i < E"
  proof (intro allI impI conjI)
    fix i assume i: "i < coedges_num em"
    show "next' ia ! i < coedges_num em" by (rule built_facts(2) [OF b i])
    show "mate ia ! i < coedges_num em" by (rule built_facts(3) [OF b i])
    from built_facts(6) [OF b i] obtain f where "f \<in> set (faces body)"
      "face_map em f = Some (coedge_to_face ia ! i)" by blast
    with faces_ok show "coedge_to_face ia ! i < F" unfolding list_all_iff by fastforce
    from built_edge [OF b i] obtain y where "y \<in> set (concat (wires body))"
      "edge_map em y = Some (coedge_to_edge ia ! i)" by blast
    with edges_ok show "coedge_to_edge ia ! i < E" unfolding list_all_iff by fastforce
  qed
next
  assume "fill_arrays body em = Inr raw \<and>
            coedges_num em \<in> set (next' raw) \<union> set (mate raw) \<union> set (coedge_to_face raw)
              \<union> set (coedge_to_edge raw)"
  then show "\<exists>a. build_incidence_arrays body em = Inl (AssertionError a)"
    using sentinel_fails by blast
next
  assume "k < coedges_num em \<and>
            (\<forall>x\<in>set (concat (wires body)). map_of (oriented_edge_map em) x \<noteq> Some k)"
  then show "\<exists>e. build_incidence_arrays body em = Inl e"
    using build_not_visited by blast
qed


lemma open_fill:
  "fill_arrays pole_body open_mapper =
     Inr \<lparr>next' = [1, 2, 0, 4, 3, 6], mate = [3, 4, 5, 0, 1, 6],
          coedge_to_face = [0, 0, 0, 1, 1, 6], coedge_to_edge = [0, 1, 2, 0, 1, 2]\<rparr>"
  by code_simp

theorem build_validation_gate_witness:
  "list_all (\<lambda>f. case face_map pole_mapper f of None \<Rightarrow> True | Some v \<Rightarrow> v < 2)
     (faces pole_body) \<and>
   list_all (\<lambda>x. case edge_map pole_mapper x of None \<Rightarrow> True | Some v \<Rightarrow> v < 3)
     (concat (wires pole_body)) \<and>
   build_incidence_arrays pole_body pole_mapper =
     Inr \<lparr>next' = [1, 2, 0, 4, 3], mate = [3, 4, 2, 0, 1],
          coedge_to_face = [0, 0, 0, 1, 1], coedge_to_edge = [0, 1, 2, 0, 1]\<rparr> \<and>
   (4 < coedges_num pole_mapper \<and> [1, 2, 0, 4, 3 :: nat] ! 4 < coedges_num pole_mapper \<and>
      [3, 4, 2, 0, 1 :: nat] ! 4 < coedges_num pole_mapper \<and>
      [0, 0, 0, 1, 1 :: nat] ! 4 < 2 \<and> [0, 1, 2, 0, 1 :: nat] ! 4 < 3) \<and>
   fill_arrays pole_body open_mapper =
     Inr \<lparr>next' = [1, 2, 0, 4, 3, 6], mate = [3, 4, 5, 0, 1, 6],
          coedge_to_face = [0, 0, 0, 1, 1, 6], coedge_to_edge = [0, 1, 2, 0, 1, 2]\<rparr> \<and>
   coedges_num open_mapper \<in> set [1, 2, 0, 4, 3, 6 :: nat] \<and>
   (\<exists>a. build_incidence_arrays pole_body open_mapper = Inl (AssertionError a))"
proof -
  let ?ia = "\<lparr>next' = [1, 2, 0, 4, 3], mate = [3, 4, 2, 0, 1],
          coedge_to_face = [0, 0, 0, 1, 1], coedge_to_edge = [0, 1, 2, 0, 1 :: nat]\<rparr>"
  let ?raw = "\<lparr>next' = [1, 2, 0, 4, 3, 6], mate = [3, 4, 5, 0, 1, 6],
          coedge_to_face = [0, 0, 0, 1, 1, 6], coedge_to_edge = [0, 1, 2, 0, 1, 2 :: nat]\<rparr>"
  have f: "list_all (\<lambda>f. case face_map pole_mapper f of None \<Rightarrow> True | Some v \<Rightarrow> v < 2)
     (faces pole_body)"
    by (simp add: pole_mapper_def pole_body_def)
  have e: "list_all (\<lambda>x. case edge_map pole_mapper x of None \<Rightarrow> True | Some v \<Rightarrow> v < 3)
     (concat (wires pole_body))"
    by (simp add: pole_mapper_def pole_body_def)
  have f': "list_all (\<lambda>f. case face_map open_mapper f of None \<Rightarrow> True | Some v \<Rightarrow> v < 2)
     (faces pole_body)"
    by (simp add: open_mapper_def pole_body_def)
  have e': "list_all (\<lambda>x. case edge_map open_mapper x of None \<Rightarrow> True | Some v \<Rightarrow> v < 3)
     (concat (wires pole_body))"
    by (simp add: open_mapper_def pole_body_def)
  have s: "coedges_num open_mapper \<in> set [1, 2, 0, 4, 3, 6 :: nat]"
    by (simp add: open_mapper_def coedges_num_def)
  have g1: "build_incidence_arrays pole_body pole_mapper = Inr ?ia \<longrightarrow>
      (\<forall>i<coedges_num pole_mapper. next' ?ia ! i < coedges_num pole_mapper \<and>
         mate ?ia ! i < coedges_num pole_mapper \<and>
         coedge_to_face ?ia ! i < 2 \<and> coedge_to_edge ?ia ! i < 3)"
    using build_validation_gate [OF f e, of ?ia ?raw 0] by blast
  with pole_build
  have 0: "\<forall>i<coedges_num pole_mapper. [1, 2, 0, 4, 3 :: nat] ! i < coedges_num pole_mapper \<and>
      [3, 4, 2, 0, 1 :: nat] ! i < coedges_num pole_mapper \<and>
      [0, 0, 0, 1, 1 :: nat] ! i < 2 \<and> [0, 1, 2, 0, 1 :: nat] ! i < 3"
    by simp
  have c4: "4 < coedges_num pole_mapper" by (simp add: pole_mapper_def coedges_num_def)
  from 0 [rule_format, OF c4] c4
  have 1: "4 < coedges_num pole_mapper \<and> [1, 2, 0, 4, 3 :: nat] ! 4 < coedges_num pole_mapper \<and>
      [3, 4, 2, 0, 1 :: nat] ! 4 < coedges_num pole_mapper \<and>
      [0, 0, 0, 1, 1 :: nat] ! 4 < 2 \<and> [0, 1, 2, 0, 1 :: nat] ! 4 < 3"
    by blast
  have s': "coedges_num open_mapper \<in> set (next' ?raw) \<union> set (mate ?raw)
      \<union> set (coedge_to_face ?raw) \<union> set (coedge_to_edge ?raw)"
    by (simp add: open_mapper_def coedges_num_def)
  have g2: "fill_arrays pole_body open_mapper = Inr ?raw \<and>
      coedges_num open_mapper \<in> set (next' ?raw) \<union> set (mate ?raw)
        \<union> set (coedge_to_face ?raw) \<union> set (coedge_to_edge ?raw)
      \<longrightarrow> (\<exists>a. build_incidence_arrays pole_body open_mapper = Inl (AssertionError a))"
    using build_validation_gate [OF f' e', of ?ia ?raw 0] by blast
  with open_fill s'
  have 2: "\<exists>a. build_incidence_arrays pole_body open_mapper = Inl (AssertionError a)"
    by blast
  from f e pole_build 1 open_fill s 2 show ?thesis by blast
qed

lemma setitem_Inl: "setitem xs i v = Inl e \<Longrightarrow> e = IndexError"
  by (auto simp: setitem_def split: if_splits)

lemma lookup_Inl: "lookup r = Inl e \<Longrightarrow> e = KeyError"
  by (auto simp: lookup_def split: option.splits)

lemma np_setitem_Inl: "np_setitem xs p v = Inl e \<Longrightarrow> e = TypeError \<or> e = IndexError"
  by (cases "(xs, p, v)" rule: np_setitem.cases) (auto dest: setitem_Inl)

lemma coedge_step_share:
  assumes "coedge_step body em x s = Inl (AssertionError (ShareEdge a b e))"
  shows "map_of (oriented_edge_map em) x = Some a \<and> edge_map em x = Some e \<and>
         edge_map em (reversed_edge body x) \<noteq> Some e"
  using assms
  unfolding coedge_step_def oriented_edge_index_def oriented_edge_exists_def edge_index_def
  by (auto simp: bind_err_eq_Inl bind_err_eq_Inr lookup_eq_Inr
      split: prod.splits if_splits option.splits
      dest: setitem_Inl lookup_Inl np_setitem_Inl)

lemma wire_loop_share:
  "wire_loop body em cs s = Inl (AssertionError (ShareEdge a b e)) \<Longrightarrow>
     \<exists>x\<in>set cs. map_of (oriented_edge_map em) x = Some a \<and> edge_map em x = Some e \<and>
         edge_map em (reversed_edge body x) \<noteq> Some e"
proof (induction cs arbitrary: s)
  case Nil
  then show ?case by simp
next
  case (Cons x cs)
  from Cons.prems have "coedge_step body em x s = Inl (AssertionError (ShareEdge a b e)) \<or>
      (\<exists>s1. wire_loop body em cs s1 = Inl (AssertionError (ShareEdge a b e)))"
    by (auto simp: bind_err_eq_Inl)
  then show ?case
  proof
    assume "coedge_step body em x s = Inl (AssertionError (ShareEdge a b e))"
    from coedge_step_share [OF this] show ?thesis by simp
  next
    assume "\<exists>s1. wire_loop body em cs s1 = Inl (AssertionError (ShareEdge a b e))"
    then obtain s1 where "wire_loop body em cs s1 = Inl (AssertionError (ShareEdge a b e))" ..
    from Cons.IH [OF this] show ?thesis by auto
  qed
qed

lemma wire_body_share:
  assumes "wire_body body em w ia = Inl (AssertionError (ShareEdge a b e))"
  shows "\<exists>x\<in>set w. map_of (oriented_edge_map em) x = Some a \<and> edge_map em x = Some e \<and>
         edge_map em (reversed_edge body x) \<noteq> Some e"
proof -
  from assms have "wire_loop body em w (None, None, ia) = Inl (AssertionError (ShareEdge a b e))"
    unfolding wire_body_def
    by (auto simp: bind_err_eq_Inl split: prod.splits dest: np_setitem_Inl)
  then show ?thesis by (rule wire_loop_share)
qed

lemma wires_loop_share:
  "wires_loop body em ws ia = Inl (AssertionError (ShareEdge a b e)) \<Longrightarrow>
     \<exists>x\<in>set (concat ws). map_of (oriented_edge_map em) x = Some a \<and> edge_map em x = Some e \<and>
         edge_map em (reversed_edge body x) \<noteq> Some e"
proof (induction ws arbitrary: ia)
  case Nil
  then show ?case by simp
next
  case (Cons w ws)
  from Cons.prems have "wire_body body em w ia = Inl (AssertionError (ShareEdge a b e)) \<or>
      (\<exists>ia1. wires_loop body em ws ia1 = Inl (AssertionError (ShareEdge a b e)))"
    by (auto simp: bind_err_eq_Inl)
  then show ?case
  proof
    assume "wire_body body em w ia = Inl (AssertionError (ShareEdge a b e))"
    from wire_body_share [OF this] show ?thesis by auto
  next
    assume "\<exists>ia1. wires_loop body em ws ia1 = Inl (AssertionError (ShareEdge a b e))"
    then obtain ia1 where "wires_loop body em ws ia1 = Inl (AssertionError (ShareEdge a b e))" ..
    from Cons.IH [OF this] show ?thesis by auto
  qed
qed

lemma face_coedges_loop_Inl:
  "face_coedges_loop em fi cs c2f = Inl e \<Longrightarrow> e = KeyError \<or> e = IndexError"
  by (induction cs arbitrary: c2f)
    (auto simp: bind_err_eq_Inl oriented_edge_index_def dest: setitem_Inl lookup_Inl)

lemma face_wires_loop_Inl:
  "face_wires_loop em fi ws c2f = Inl e \<Longrightarrow> e = KeyError \<or> e = IndexError"
  by (induction ws arbitrary: c2f) (auto simp: bind_err_eq_Inl dest: face_coedges_loop_Inl)

lemma faces_loop_Inl:
  "faces_loop body em fs c2f = Inl e \<Longrightarrow> e = KeyError \<or> e = IndexError"
  by (induction fs arbitrary: c2f)
    (auto simp: bind_err_eq_Inl face_index_def dest: face_wires_loop_Inl lookup_Inl)

lemma build_share:
  assumes "build_incidence_arrays body em = Inl (AssertionError (ShareEdge a b e))"
  shows "\<exists>x\<in>set (concat (wires body)). map_of (oriented_edge_map em) x = Some a \<and>
         edge_map em x = Some e \<and> edge_map em (reversed_edge body x) \<noteq> Some e"
proof -
  from assms have "fill_arrays body em = Inl (AssertionError (ShareEdge a b e))"
    unfolding build_incidence_arrays_def
    by (auto simp: bind_err_eq_Inl dest: validate_Inl)
  then have "\<exists>ia. wires_loop body em (wires body) ia = Inl (AssertionError (ShareEdge a b e))"
    unfolding fill_arrays_def
    by (auto simp: bind_err_eq_Inl dest: faces_loop_Inl)
  then show ?thesis using wires_loop_share by blast
qed


lemma coedge_step_prev:
  assumes "coedge_step body em x (f, p, ia) = Inr (f', p', ia')"
  shows "\<exists>q. p' = Some q \<and> q < length (mate ia)"
  using assms by (rule coedge_step_Inr) auto

lemma wire_loop_prev:
  "wire_loop body em cs (f, p, ia) = Inr (f', p', ia') \<Longrightarrow> wire_inv body em V ia \<Longrightarrow>
     (case p of None \<Rightarrow> True | Some q \<Rightarrow> q < coedges_num em) \<Longrightarrow>
     (case p' of None \<Rightarrow> True | Some q \<Rightarrow> q < coedges_num em)"
proof (induction cs arbitrary: f p ia V)
  case Nil
  then show ?case by simp
next
  case (Cons x cs)
  from Cons.prems(1) obtain f1 p1 ia1 where
    s1: "coedge_step body em x (f, p, ia) = Inr (f1, p1, ia1)"
    and r: "wire_loop body em cs (f1, p1, ia1) = Inr (f', p', ia')"
    by (auto simp: bind_err_eq_Inr)
  have len: "length (mate ia) = coedges_num em"
    using Cons.prems(2) unfolding wire_inv_def by simp
  from coedge_step_prev [OF s1] len
  have p1: "case p1 of None \<Rightarrow> True | Some q \<Rightarrow> q < coedges_num em" by auto
  from Cons.IH [OF r coedge_step_inv [OF s1 Cons.prems(2)] p1] show ?case .
qed

lemma coedge_step_pole:
  assumes pole: "\<not> oriented_edge_exists em (reversed_edge body c)"
    and ci: "map_of (oriented_edge_map em) c = Some ci"
    and dense: "ci < coedges_num em"
    and e: "edge_map em c = Some e"
    and ed: "edge_map em (reversed_edge body c) = Some e"
    and inv: "wire_inv body em V ia"
    and p: "case p of None \<Rightarrow> True | Some q \<Rightarrow> q < coedges_num em"
  shows "\<exists>f' ia'. coedge_step body em c (f, p, ia) = Inr (f', Some ci, ia') \<and>
           mate ia' ! ci = ci \<and> coedge_to_edge ia' ! ci = e"
proof -
  from inv have len: "length (next' ia) = coedges_num em" "length (mate ia) = coedges_num em"
    "length (coedge_to_edge ia) = coedges_num em"
    unfolding wire_inv_def by simp_all
  have nx: "\<exists>nxt. (case f of None \<Rightarrow> Inr (next' ia)
                    | Some a \<Rightarrow> np_setitem (next' ia) p (Some ci)) = Inr nxt"
  proof (cases f)
    case None
    then show ?thesis by simp
  next
    case (Some a)
    show ?thesis
    proof (cases p)
      case None
      then show ?thesis using Some by simp
    next
      case (Some q)
      then have "q < length (next' ia)" using p len by simp
      then show ?thesis using Some \<open>f = Some a\<close> by (simp add: setitem_def)
    qed
  qed
  then obtain nxt where nxt: "(case f of None \<Rightarrow> Inr (next' ia)
                    | Some a \<Rightarrow> np_setitem (next' ia) p (Some ci)) = Inr nxt" ..
  have step: "coedge_step body em c (f, p, ia) =
      Inr (case f of None \<Rightarrow> Some ci | Some a \<Rightarrow> Some a, Some ci,
           ia\<lparr>next' := nxt, mate := (mate ia)[ci := ci],
              coedge_to_edge := (coedge_to_edge ia)[ci := e, ci := e]\<rparr>)"
    unfolding coedge_step_def oriented_edge_index_def edge_index_def
    using pole ci e ed dense len nxt
    by (simp add: lookup_def setitem_def)
  show ?thesis
    unfolding step using dense len by simp
qed

text \<open>
  Claim C9 (degenerate pole): let \<open>c\<close> be a coedge at some position of a wire of the
  body whose reverse is not in the mapper's \<^verbatim>\<open>oriented_edge_map\<close>, with id
  \<open>ci\<close> and edge \<open>e\<close>. Whenever the loops reach \<open>c\<close> (the wires before its wire
  and the coedges before it in its wire went through), the iteration for \<open>c\<close> returns
  normally: it raises nothing, sets \<open>mate[ci] = ci\<close> and \<open>coedge_to_edge[ci] = e\<close>,
  and goes on with \<open>ci\<close> as the previous coedge. When the loops complete,
  \<open>mate[ci] = ci\<close> still holds, a valid id on which the validation does not trip; a
  returned result has \<open>mate[ci] = ci\<close>; and the assertion that a coedge and its mate
  share the edge is never raised for \<open>ci\<close>. The library's contract: ids are unique and
  below the coedge count, and the edge lookup of the reverse of \<open>c\<close> gives the edge of
  \<open>c\<close>.
\<close>

theorem pole_self_mate:
  assumes pos: "wires body = ws1 @ (pre @ c # post) # ws2"
    and pole: "\<not> oriented_edge_exists em (reversed_edge body c)"
    and u: "distinct (map snd (oriented_edge_map em))"
    and ci: "map_of (oriented_edge_map em) c = Some ci"
    and dense: "ci < coedges_num em"
    and e: "edge_map em c = Some e"
    and ed: "edge_map em (reversed_edge body c) = Some e"
  shows "(wires_loop body em ws1
            \<lparr>next' = initializer (coedges_num em), mate = initializer (coedges_num em),
             coedge_to_face = initializer (coedges_num em),
             coedge_to_edge = initializer (coedges_num em)\<rparr> = Inr ia1 \<and>
          wire_loop body em pre (None, None, ia1) = Inr s
          \<longrightarrow> (\<exists>f' ia'. coedge_step body em c s = Inr (f', Some ci, ia') \<and>
                 mate ia' ! ci = ci \<and> coedge_to_edge ia' ! ci = e)) \<and>
         (fill_arrays body em = Inr raw \<longrightarrow> mate raw ! ci = ci) \<and>
         (build_incidence_arrays body em = Inr ia \<longrightarrow> mate ia ! ci = ci) \<and>
         (\<forall>mi ei. build_incidence_arrays body em \<noteq> Inl (AssertionError (ShareEdge ci mi ei)))"
proof -
  let ?init = "\<lparr>next' = initializer (coedges_num em), mate = initializer (coedges_num em),
             coedge_to_face = initializer (coedges_num em),
             coedge_to_edge = initializer (coedges_num em)\<rparr>"
  have cw: "c \<in> set (concat (wires body))" unfolding pos by simp
  have none: "map_of (oriented_edge_map em) (reversed_edge body c) = None"
    using pole by (simp add: oriented_edge_exists_def)
  have reach: "\<exists>f' ia'. coedge_step body em c s = Inr (f', Some ci, ia') \<and>
                 mate ia' ! ci = ci \<and> coedge_to_edge ia' ! ci = e"
    if w: "wires_loop body em ws1 ?init = Inr ia1"
      and l: "wire_loop body em pre (None, None, ia1) = Inr s"
  proof -
    obtain f p ias where s: "s = (f, p, ias)" by (cases s) auto
    from wires_loop_inv [OF w wire_inv_init]
    have i1: "wire_inv body em ({} \<union> set (concat ws1)) ia1" .
    from wire_loop_inv [OF l [unfolded s] i1]
    have i2: "wire_inv body em ({} \<union> set (concat ws1) \<union> set pre) ias" .
    from wire_loop_prev [OF l [unfolded s] i1]
    have p: "case p of None \<Rightarrow> True | Some q \<Rightarrow> q < coedges_num em" by simp
    from coedge_step_pole [OF pole ci dense e ed i2 p] show ?thesis unfolding s .
  qed
  have filled: "mate r ! ci = ci" if f: "fill_arrays body em = Inr r" for r
  proof -
    from fill_arrays_Inr(1) [OF f] cw
    obtain i y where i: "i < coedges_num em" "map_of (oriented_edge_map em) c = Some i"
      and y: "map_of (oriented_edge_map em) y = Some i"
      and m: "mate r ! i = (case map_of (oriented_edge_map em) (reversed_edge body y) of
                              None \<Rightarrow> i | Some j \<Rightarrow> j)"
      unfolding wire_inv_def by blast
    from i(2) ci have ic: "i = ci" by simp
    have "y = c" by (rule unique_ids [OF u y i(2)])
    then show ?thesis using m none ic by simp
  qed
  have built: "mate ia ! ci = ci" if b: "build_incidence_arrays body em = Inr ia"
    using filled [of ia] b by (simp add: build_Inr)
  have noshare: "build_incidence_arrays body em \<noteq> Inl (AssertionError (ShareEdge ci mi ei))"
    for mi ei
  proof
    assume "build_incidence_arrays body em = Inl (AssertionError (ShareEdge ci mi ei))"
    from build_share [OF this] obtain x where
      x: "map_of (oriented_edge_map em) x = Some ci" and ex: "edge_map em x = Some ei"
      and ne: "edge_map em (reversed_edge body x) \<noteq> Some ei" by blast
    have "x = c" by (rule unique_ids [OF u x ci])
    with ex ne e ed show False by simp
  qed
  from reach filled built noshare show ?thesis by blast
qed

theorem pole_self_mate_witness:
  "wires pole_body = [] @ ([(0, False), (1, False)] @ (2, False) # []) # [[(0, True), (1, True)]] \<and>
   \<not> oriented_edge_exists pole_mapper (reversed_edge pole_body (2, False)) \<and>
   distinct (map snd (oriented_edge_map pole_mapper)) \<and>
   map_of (oriented_edge_map pole_mapper) (2, False) = Some 2 \<and>
   2 < coedges_num pole_mapper \<and>
   edge_map pole_mapper (2, False) = Some 2 \<and>
   edge_map pole_mapper (reversed_edge pole_body (2, False)) = Some 2 \<and>
   wire_loop pole_body pole_mapper [(0, False), (1, False)]
     (None, None,
      \<lparr>next' = initializer (coedges_num pole_mapper), mate = initializer (coedges_num pole_mapper),
       coedge_to_face = initializer (coedges_num pole_mapper),
       coedge_to_edge = initializer (coedges_num pole_mapper)\<rparr>)
     = Inr (Some 0, Some 1,
            \<lparr>next' = [1, 5, 5, 5, 5], mate = [3, 4, 5, 5, 5],
             coedge_to_face = [5, 5, 5, 5, 5], coedge_to_edge = [0, 1, 5, 0, 1]\<rparr>) \<and>
   (\<exists>f' ia'. coedge_step pole_body pole_mapper (2, False)
        (Some 0, Some 1,
         \<lparr>next' = [1, 5, 5, 5, 5], mate = [3, 4, 5, 5, 5],
          coedge_to_face = [5, 5, 5, 5, 5], coedge_to_edge = [0, 1, 5, 0, 1]\<rparr>)
        = Inr (f', Some 2, ia') \<and> mate ia' ! 2 = 2 \<and> coedge_to_edge ia' ! 2 = 2) \<and>
   build_incidence_arrays pole_body pole_mapper =
     Inr \<lparr>next' = [1, 2, 0, 4, 3], mate = [3, 4, 2, 0, 1],
          coedge_to_face = [0, 0, 0, 1, 1], coedge_to_edge = [0, 1, 2, 0, 1]\<rparr> \<and>
   [3, 4, 2, 0, 1 :: nat] ! 2 = 2"
proof -
  let ?ia = "\<lparr>next' = [1, 2, 0, 4, 3], mate = [3, 4, 2, 0, 1],
          coedge_to_face = [0, 0, 0, 1, 1], coedge_to_edge = [0, 1, 2, 0, 1 :: nat]\<rparr>"
  let ?init = "\<lparr>next' = initializer (coedges_num pole_mapper),
       mate = initializer (coedges_num pole_mapper),
       coedge_to_face = initializer (coedges_num pole_mapper),
       coedge_to_edge = initializer (coedges_num pole_mapper)\<rparr>"
  let ?s = "(Some 0, Some 1,
         \<lparr>next' = [1, 5, 5, 5, 5], mate = [3, 4, 5, 5, 5],
          coedge_to_face = [5, 5, 5, 5, 5], coedge_to_edge = [0, 1, 5, 0, 1 :: nat]\<rparr>)"
  have pos: "wires pole_body
      = [] @ ([(0, False), (1, False)] @ (2, False) # []) # [[(0, True), (1, True)]]"
    by (simp add: pole_body_def)
  have pole: "\<not> oriented_edge_exists pole_mapper (reversed_edge pole_body (2, False))"
    by (simp add: oriented_edge_exists_def pole_mapper_def pole_body_def flip_def)
  have u: "distinct (map snd (oriented_edge_map pole_mapper))"
    by (simp add: pole_mapper_def)
  have ci: "map_of (oriented_edge_map pole_mapper) (2, False) = Some 2"
    by (simp add: pole_mapper_def)
  have dense: "2 < coedges_num pole_mapper"
    by (simp add: pole_mapper_def coedges_num_def)
  have e: "edge_map pole_mapper (2, False) = Some 2"
    by (simp add: pole_mapper_def)
  have ed: "edge_map pole_mapper (reversed_edge pole_body (2, False)) = Some 2"
    by (simp add: pole_mapper_def pole_body_def flip_def)
  have w: "wires_loop pole_body pole_mapper [] ?init = Inr ?init" by simp
  have l: "wire_loop pole_body pole_mapper [(0, False), (1, False)] (None, None, ?init)
      = Inr ?s"
    by code_simp
  note t = pole_self_mate [OF pos pole u ci dense e ed, of ?init ?s ?ia ?ia]
  from t w l have 1: "\<exists>f' ia'. coedge_step pole_body pole_mapper (2, False) ?s
        = Inr (f', Some 2, ia') \<and> mate ia' ! 2 = 2 \<and> coedge_to_edge ia' ! 2 = 2"
    by blast
  from t pole_build have "mate ?ia ! 2 = 2" by blast
  then have 2: "[3, 4, 2, 0, 1 :: nat] ! 2 = 2" by simp
  from pos pole u ci dense e ed l 1 pole_build 2 show ?thesis by blast
qed

section \<open>The incidence builder: the cycles of next\<close>

lemma length_foldl_update:
  "length (foldl (\<lambda>a kv. a[fst kv := snd kv]) a ups) = length a"
  by (induction ups arbitrary: a) simp_all

lemma foldl_update_nth:
  "distinct (map fst ups) \<Longrightarrow> (k, v) \<in> set ups \<Longrightarrow> k < length a
     \<Longrightarrow> foldl (\<lambda>a kv. a[fst kv := snd kv]) a ups ! k = v"
proof (induction ups rule: rev_induct)
  case Nil
  then show ?case by simp
next
  case (snoc kv ups)
  show ?case
  proof (cases "(k, v) = kv")
    case True
    then show ?thesis using snoc.prems(3) by (auto simp: length_foldl_update)
  next
    case False
    with snoc.prems have in_ups: "(k, v) \<in> set ups" and d: "distinct (map fst ups)"
      and nk: "fst kv \<notin> fst ` set ups" by auto
    have "k \<noteq> fst kv"
    proof
      assume "k = fst kv"
      with in_ups have "(fst kv, v) \<in> set ups" by simp
      then have "fst (fst kv, v) \<in> fst ` set ups" by (rule imageI)
      then have "fst kv \<in> fst ` set ups" by (simp only: fst_conv)
      with nk show False by contradiction
    qed
    then show ?thesis using snoc.IH [OF d in_ups snoc.prems(3)] by simp
  qed
qed

lemma zip_shift_last:
  "zip (x # xs) (xs @ [v]) = zip (x # xs) xs @ [(last (x # xs), v)]"
  by (induction xs arbitrary: x) simp_all

lemma wire_loop_next:
  "wire_loop body em cs (Some f, Some p, ia) = Inr (f', p', ia') \<Longrightarrow>
     (\<forall>x\<in>set cs. map_of (oriented_edge_map em) x \<noteq> None) \<and> f' = Some f \<and>
     p' = Some (last (p # map (\<lambda>c. the (map_of (oriented_edge_map em) c)) cs)) \<and>
     next' ia' = foldl (\<lambda>a kv. a[fst kv := snd kv]) (next' ia)
        (zip (p # map (\<lambda>c. the (map_of (oriented_edge_map em) c)) cs)
             (map (\<lambda>c. the (map_of (oriented_edge_map em) c)) cs))"
proof (induction cs arbitrary: p ia)
  case Nil
  then show ?case by simp
next
  case (Cons x cs)
  from Cons.prems obtain s1 where
    s1: "coedge_step body em x (Some f, Some p, ia) = Inr s1"
    and r: "wire_loop body em cs s1 = Inr (f', p', ia')"
    by (auto simp: bind_err_eq_Inr)
  from s1 obtain ci nxt ia1 where ci: "map_of (oriented_edge_map em) x = Some ci"
    and n: "np_setitem (next' ia) (Some p) (Some ci) = Inr nxt"
    and e: "s1 = (Some f, Some ci, ia1)" and n1: "next' ia1 = nxt"
    by (rule coedge_step_Inr) auto
  from n have nxt: "nxt = (next' ia)[p := ci]" by (simp add: setitem_eq_Inr)
  from Cons.IH [OF r [unfolded e]] show ?case using ci n1 nxt by simp
qed

lemma wire_body_next:
  assumes "wire_body body em w ia = Inr ia'"
  shows "w \<noteq> [] \<and> (\<forall>x\<in>set w. map_of (oriented_edge_map em) x \<noteq> None) \<and>
     next' ia' = foldl (\<lambda>a kv. a[fst kv := snd kv]) (next' ia)
        (zip (map (\<lambda>c. the (map_of (oriented_edge_map em) c)) w)
             (rotate1 (map (\<lambda>c. the (map_of (oriented_edge_map em) c)) w)))"
proof (cases w)
  case Nil
  with assms show ?thesis by (simp add: wire_body_def)
next
  case (Cons x cs)
  let ?ids = "map (\<lambda>c. the (map_of (oriented_edge_map em) c))"
  from assms obtain f p ia2 nxt2 where
    l: "wire_loop body em w (None, None, ia) = Inr (f, p, ia2)"
    and n: "np_setitem (next' ia2) p f = Inr nxt2" and e: "ia' = ia2\<lparr>next' := nxt2\<rparr>"
    unfolding wire_body_def by (auto simp: bind_err_eq_Inr)
  from l Cons obtain s1 where
    s1: "coedge_step body em x (None, None, ia) = Inr s1"
    and r: "wire_loop body em cs s1 = Inr (f, p, ia2)"
    by (auto simp: bind_err_eq_Inr)
  from s1 obtain ci ia1 where ci: "map_of (oriented_edge_map em) x = Some ci"
    and e1: "s1 = (Some ci, Some ci, ia1)" and n1: "next' ia1 = next' ia"
    by (rule coedge_step_Inr) auto
  from wire_loop_next [OF r [unfolded e1]]
  have d: "\<forall>x\<in>set cs. map_of (oriented_edge_map em) x \<noteq> None" and f: "f = Some ci"
    and p: "p = Some (last (ci # ?ids cs))"
    and n2: "next' ia2 = foldl (\<lambda>a kv. a[fst kv := snd kv]) (next' ia1)
        (zip (ci # ?ids cs) (?ids cs))"
    by simp_all
  from n have nxt2: "nxt2 = (next' ia2)[last (ci # ?ids cs) := ci]"
    unfolding f p by (simp add: setitem_eq_Inr)
  have ids: "?ids w = ci # ?ids cs" using Cons ci by simp
  have "next' ia' = foldl (\<lambda>a kv. a[fst kv := snd kv]) (next' ia)
        (zip (ci # ?ids cs) (?ids cs) @ [(last (ci # ?ids cs), ci)])"
    using e nxt2 n2 n1 by simp
  then have "next' ia' = foldl (\<lambda>a kv. a[fst kv := snd kv]) (next' ia)
        (zip (?ids w) (rotate1 (?ids w)))"
    unfolding ids by (simp only: rotate1.simps zip_shift_last)
  then show ?thesis using Cons ci d by simp
qed

lemma wires_loop_next:
  "wires_loop body em ws ia = Inr ia' \<Longrightarrow>
     [] \<notin> set ws \<and> (\<forall>x\<in>set (concat ws). map_of (oriented_edge_map em) x \<noteq> None) \<and>
     next' ia' = foldl (\<lambda>a kv. a[fst kv := snd kv]) (next' ia)
        (concat (map (\<lambda>w. zip (map (\<lambda>c. the (map_of (oriented_edge_map em) c)) w)
                              (rotate1 (map (\<lambda>c. the (map_of (oriented_edge_map em) c)) w))) ws))"
proof (induction ws arbitrary: ia)
  case Nil
  then show ?case by simp
next
  case (Cons w ws)
  from Cons.prems obtain ia1 where
    s1: "wire_body body em w ia = Inr ia1" and r: "wires_loop body em ws ia1 = Inr ia'"
    by (auto simp: bind_err_eq_Inr)
  from wire_body_next [OF s1] Cons.IH [OF r] show ?case by auto
qed

lemma fill_arrays_next:
  assumes "fill_arrays body em = Inr raw"
  shows "[] \<notin> set (wires body)"
    and "\<forall>x\<in>set (concat (wires body)). map_of (oriented_edge_map em) x \<noteq> None"
    and "next' raw = foldl (\<lambda>a kv. a[fst kv := snd kv]) (initializer (coedges_num em))
        (concat (map (\<lambda>w. zip (map (\<lambda>c. the (map_of (oriented_edge_map em) c)) w)
                              (rotate1 (map (\<lambda>c. the (map_of (oriented_edge_map em) c)) w)))
                   (wires body)))"
proof -
  let ?init = "\<lparr>next' = initializer (coedges_num em), mate = initializer (coedges_num em),
      coedge_to_face = initializer (coedges_num em),
      coedge_to_edge = initializer (coedges_num em)\<rparr>"
  from assms obtain ia c2f where w: "wires_loop body em (wires body) ?init = Inr ia"
    and raw: "raw = ia\<lparr>coedge_to_face := c2f\<rparr>"
    unfolding fill_arrays_def by (auto simp: bind_err_eq_Inr)
  from wires_loop_next [OF w] raw
  show "[] \<notin> set (wires body)"
    and "\<forall>x\<in>set (concat (wires body)). map_of (oriented_edge_map em) x \<noteq> None"
    and "next' raw = foldl (\<lambda>a kv. a[fst kv := snd kv]) (initializer (coedges_num em))
        (concat (map (\<lambda>w. zip (map (\<lambda>c. the (map_of (oriented_edge_map em) c)) w)
                              (rotate1 (map (\<lambda>c. the (map_of (oriented_edge_map em) c)) w)))
                   (wires body)))"
    by simp_all
qed


lemma distinct_map_the:
  assumes "distinct (map f xs)" and "\<forall>x\<in>set xs. f x \<noteq> None"
  shows "distinct (map (\<lambda>x. the (f x)) xs)"
proof -
  from assms(1) have d: "distinct xs" and i: "inj_on f (set xs)" by (simp_all add: distinct_map)
  have "inj_on (\<lambda>x. the (f x)) (set xs)"
  proof (rule inj_onI)
    fix x y assume x: "x \<in> set xs" and y: "y \<in> set xs" and e: "the (f x) = the (f y)"
    from assms(2) x have "f x \<noteq> None" by blast
    moreover from assms(2) y have "f y \<noteq> None" by blast
    ultimately obtain a b where "f x = Some a" "f y = Some b" by blast
    with e have "f x = f y" by simp
    with i show "x = y" using x y by (rule inj_onD)
  qed
  with d show ?thesis by (simp add: distinct_map)
qed

lemma map_fst_wire_updates:
  "map fst (concat (map (\<lambda>w. zip (map g w) (rotate1 (map g w))) ws)) = map g (concat ws)"
  by (induction ws) (simp_all add: map_fst_zip)

lemma built_next:
  assumes b: "build_incidence_arrays body em = Inr ia"
    and d: "distinct (map (map_of (oriented_edge_map em)) (concat (wires body)))"
    and w: "w \<in> set (wires body)"
    and j: "j < length w"
  shows "the (map_of (oriented_edge_map em) (w ! j)) < length (next' ia) \<and>
         next' ia ! (the (map_of (oriented_edge_map em) (w ! j)))
           = the (map_of (oriented_edge_map em) (w ! (Suc j mod length w)))"
proof -
  let ?g = "\<lambda>c. the (map_of (oriented_edge_map em) c)"
  let ?ups = "concat (map (\<lambda>w. zip (map ?g w) (rotate1 (map ?g w))) (wires body))"
  from b have fill: "fill_arrays body em = Inr ia" by (simp add: build_Inr)
  note n = fill_arrays_next [OF fill]
  have inv: "wire_inv body em (set (concat (wires body))) ia"
    by (rule fill_arrays_Inr(1) [OF fill])
  have "w ! j \<in> set w" using j by simp
  with w have wj: "w ! j \<in> set (concat (wires body))" by auto
  with inv obtain i where "i < coedges_num em" "map_of (oriented_edge_map em) (w ! j) = Some i"
    unfolding wire_inv_def by blast
  then have bound: "?g (w ! j) < coedges_num em" by simp
  have len: "length (next' ia) = coedges_num em" using inv unfolding wire_inv_def by simp
  have dk: "distinct (map fst ?ups)"
    unfolding map_fst_wire_updates by (rule distinct_map_the [OF d n(2)])
  have "zip (map ?g w) (rotate1 (map ?g w)) ! j \<in> set (zip (map ?g w) (rotate1 (map ?g w)))"
    using j by (intro nth_mem) simp
  then have "(map ?g w ! j, rotate1 (map ?g w) ! j) \<in> set (zip (map ?g w) (rotate1 (map ?g w)))"
    using j by simp
  then have mem: "(map ?g w ! j, rotate1 (map ?g w) ! j) \<in> set ?ups"
    using w by auto
  have "foldl (\<lambda>a kv. a[fst kv := snd kv]) (initializer (coedges_num em)) ?ups ! (map ?g w ! j)
      = rotate1 (map ?g w) ! j"
    by (rule foldl_update_nth [OF dk mem]) (use j bound in \<open>simp add: initializer_def\<close>)
  then have "next' ia ! (?g (w ! j)) = rotate1 (map ?g w) ! j"
    using n(3) j by simp
  also have "rotate1 (map ?g w) ! j = map ?g w ! (Suc j mod length (map ?g w))"
    using j by (intro nth_rotate1) simp
  also have "\<dots> = ?g (w ! (Suc j mod length w))"
  proof -
    have "0 < length w" using j by linarith
    then have "Suc j mod length w < length w" by (rule mod_less_divisor)
    then show ?thesis by simp
  qed
  finally show ?thesis using bound len by simp
qed

lemma follow_cycle:
  assumes "\<forall>j<n. ids ! j < length nxt \<and> nxt ! (ids ! j) = ids ! (Suc j mod n)"
    and "j < n"
  shows "follow nxt k (ids ! j) = Some (ids ! ((j + k) mod n))"
  using assms(2)
proof (induction k arbitrary: j)
  case 0
  then show ?case by simp
next
  case (Suc k)
  from assms(1) Suc.prems have s: "ids ! j < length nxt" "nxt ! (ids ! j) = ids ! (Suc j mod n)"
    by simp_all
  have m: "Suc j mod n < n" using Suc.prems by simp
  have "follow nxt (Suc k) (ids ! j) = follow nxt k (ids ! (Suc j mod n))"
    using s by simp
  also have "\<dots> = Some (ids ! ((Suc j mod n + k) mod n))" by (rule Suc.IH [OF m])
  also have "(Suc j mod n + k) mod n = (j + Suc k) mod n"
    by (simp add: mod_add_left_eq)
  finally show ?case .
qed


lemma distinct_map_wire:
  assumes "distinct (map f (concat ws))" and "w \<in> set ws"
  shows "distinct (map f w)"
proof -
  from assms(2) obtain ws1 ws2 where "ws = ws1 @ w # ws2" by (auto dest: split_list)
  with assms(1) show ?thesis by simp
qed

lemma shift_mod_neq:
  assumes "i < n" and "0 < k" and "k < (n::nat)"
  shows "(i + k) mod n \<noteq> i"
proof (cases "i + k < n")
  case True
  then show ?thesis using assms(2) by simp
next
  case False
  then have "(i + k) mod n = i + k - n" using assms by (simp add: mod_if)
  then show ?thesis using assms False by simp
qed

text \<open>
  Claim C8 (wire cycle structure of \<open>next\<close>) as stated fails on a body in which two
  wires list the same coedge: \<^verbatim>\<open>build_incidence_arrays\<close> succeeds on
  \<open>shared_body\<close>, whose first wire holds the coedges with ids 0 and 1; one step of
  \<open>next\<close> from id 0 leads to id 2, a coedge outside that wire, and two steps from id 1
  (the wire has two coedges) end at id 2, not back at id 1.
\<close>

theorem next_wire_cycle_counterexample:
  "build_incidence_arrays shared_body shared_mapper =
     Inr \<lparr>next' = [2, 0, 0], mate = [0, 1, 2], coedge_to_face = [1, 0, 1],
          coedge_to_edge = [0, 1, 2]\<rparr> \<and>
   wires shared_body ! 0 = [(0, False), (1, False)] \<and>
   map_of (oriented_edge_map shared_mapper) (0, False) = Some 0 \<and>
   map_of (oriented_edge_map shared_mapper) (1, False) = Some 1 \<and>
   map_of (oriented_edge_map shared_mapper) (2, False) = Some 2 \<and>
   (2, False) \<notin> set (wires shared_body ! 0) \<and>
   follow [2, 0, 0] 1 0 = Some 2 \<and>
   follow [2, 0, 0] (length (wires shared_body ! 0)) 1 = Some 2"
  by code_simp

text \<open>
  Claim C8, amended: for every body on which \<^verbatim>\<open>build_incidence_arrays\<close> succeeds
  and in which no coedge id occurs at two positions of the wires (each coedge is listed
  once, by one wire), for each wire \<open>w\<close> and each position \<open>i\<close> of it: the coedge
  \<open>w[i]\<close> has an id \<open>s\<close>; following \<open>next\<close> from \<open>s\<close> for as many steps as
  the wire has coedges returns to \<open>s\<close>, and not earlier; the ids visited on the way are
  the ids of the wire in loop order, starting at position \<open>i\<close>; and these ids are
  pairwise distinct, so each coedge of the wire is visited exactly once and no other.
\<close>

theorem next_wire_cycle:
  assumes b: "build_incidence_arrays body em = Inr ia"
    and d: "distinct (map (map_of (oriented_edge_map em)) (concat (wires body)))"
    and w: "w \<in> set (wires body)"
    and i: "i < length w"
  shows "\<exists>s. map_of (oriented_edge_map em) (w ! i) = Some s \<and>
           follow (next' ia) (length w) s = Some s \<and>
           map (\<lambda>k. follow (next' ia) k s) [0..<length w]
             = rotate i (map (map_of (oriented_edge_map em)) w) \<and>
           distinct (map (map_of (oriented_edge_map em)) w) \<and>
           (\<forall>k. 0 < k \<and> k < length w \<longrightarrow> follow (next' ia) k s \<noteq> Some s)"
proof -
  let ?idx = "map_of (oriented_edge_map em)"
  let ?g = "\<lambda>c. the (?idx c)"
  let ?ids = "map ?g w"
  let ?n = "length w"
  from b have fill: "fill_arrays body em = Inr ia" by (simp add: build_Inr)
  have def: "\<forall>x\<in>set w. ?idx x \<noteq> None"
    using fill_arrays_next(2) [OF fill] w by auto
  have some: "?idx (w ! j) = Some (?ids ! j)" if "j < ?n" for j
  proof -
    from that have "w ! j \<in> set w" by simp
    with def have "?idx (w ! j) \<noteq> None" by blast
    then show ?thesis using that by auto
  qed
  have step: "\<forall>j<?n. ?ids ! j < length (next' ia) \<and>
      next' ia ! (?ids ! j) = ?ids ! (Suc j mod ?n)"
  proof (intro allI impI)
    fix j assume j: "j < ?n"
    then have "0 < ?n" by linarith
    then have "Suc j mod ?n < ?n" by (rule mod_less_divisor)
    then show "?ids ! j < length (next' ia) \<and> next' ia ! (?ids ! j) = ?ids ! (Suc j mod ?n)"
      using built_next [OF b d w j] j by simp
  qed
  have fol: "follow (next' ia) k (?ids ! i) = Some (?ids ! ((i + k) mod ?n))" for k
    by (rule follow_cycle [OF step i])
  have dw: "distinct (map ?idx w)" by (rule distinct_map_wire [OF d w])
  have dids: "distinct ?ids" by (rule distinct_map_the [OF dw def])
  have pos: "0 < ?n" using i by linarith
  have 1: "?idx (w ! i) = Some (?ids ! i)" by (rule some [OF i])
  have 2: "follow (next' ia) ?n (?ids ! i) = Some (?ids ! i)"
    using fol [of ?n] i by simp
  have 3: "map (\<lambda>k. follow (next' ia) k (?ids ! i)) [0..<?n] = rotate i (map ?idx w)"
  proof (rule nth_equalityI)
    show "length (map (\<lambda>k. follow (next' ia) k (?ids ! i)) [0..<?n])
        = length (rotate i (map ?idx w))" by simp
  next
    fix k assume "k < length (map (\<lambda>k. follow (next' ia) k (?ids ! i)) [0..<?n])"
    then have k: "k < ?n" by simp
    have m: "(i + k) mod ?n < ?n" using pos by (rule mod_less_divisor)
    have "rotate i (map ?idx w) ! k = map ?idx w ! ((i + k) mod length (map ?idx w))"
      by (rule nth_rotate) (use k in simp)
    also have "\<dots> = ?idx (w ! ((i + k) mod ?n))" using m by simp
    also have "\<dots> = Some (?ids ! ((i + k) mod ?n))" by (rule some [OF m])
    finally show "map (\<lambda>k. follow (next' ia) k (?ids ! i)) [0..<?n] ! k
        = rotate i (map ?idx w) ! k"
      using k fol [of k] by simp
  qed
  have 4: "\<forall>k. 0 < k \<and> k < ?n \<longrightarrow> follow (next' ia) k (?ids ! i) \<noteq> Some (?ids ! i)"
  proof (intro allI impI)
    fix k assume k: "0 < k \<and> k < ?n"
    have m: "(i + k) mod ?n < ?n" using pos by (rule mod_less_divisor)
    have "(i + k) mod ?n \<noteq> i" using i k by (intro shift_mod_neq) simp_all
    moreover have "(?ids ! ((i + k) mod ?n) = ?ids ! i) = ((i + k) mod ?n = i)"
      by (rule nth_eq_iff_index_eq [OF dids]) (use m i in simp_all)
    ultimately have neq: "?ids ! ((i + k) mod ?n) \<noteq> ?ids ! i" by blast
    show "follow (next' ia) k (?ids ! i) \<noteq> Some (?ids ! i)"
      using neq unfolding fol by simp
  qed
  from 1 2 3 dw 4 show ?thesis by blast
qed

theorem next_wire_cycle_witness:
  "build_incidence_arrays pole_body pole_mapper =
     Inr \<lparr>next' = [1, 2, 0, 4, 3], mate = [3, 4, 2, 0, 1],
          coedge_to_face = [0, 0, 0, 1, 1], coedge_to_edge = [0, 1, 2, 0, 1]\<rparr> \<and>
   distinct (map (map_of (oriented_edge_map pole_mapper)) (concat (wires pole_body))) \<and>
   [(0, False), (1, False), (2, False)] \<in> set (wires pole_body) \<and>
   map_of (oriented_edge_map pole_mapper) ([(0, False), (1, False), (2, False)] ! 1) = Some 1 \<and>
   follow [1, 2, 0, 4, 3] 3 1 = Some 1 \<and>
   map (\<lambda>k. follow [1, 2, 0, 4, 3] k 1) [0..<3] = [Some 1, Some 2, Some 0]"
proof -
  let ?ia = "\<lparr>next' = [1, 2, 0, 4, 3], mate = [3, 4, 2, 0, 1],
          coedge_to_face = [0, 0, 0, 1, 1], coedge_to_edge = [0, 1, 2, 0, 1 :: nat]\<rparr>"
  let ?w = "[(0, False), (1, False), (2 :: nat, False)]"
  have d: "distinct (map (map_of (oriented_edge_map pole_mapper)) (concat (wires pole_body)))"
    by (simp add: pole_mapper_def pole_body_def)
  have w: "?w \<in> set (wires pole_body)" by (simp add: pole_body_def)
  have i: "1 < length ?w" by simp
  have s1: "map_of (oriented_edge_map pole_mapper) (?w ! 1) = Some 1"
    by (simp add: pole_mapper_def)
  from next_wire_cycle [OF pole_build d w i] obtain s where
    s: "map_of (oriented_edge_map pole_mapper) (?w ! 1) = Some s"
    and r: "follow (next' ?ia) (length ?w) s = Some s"
    and o: "map (\<lambda>k. follow (next' ?ia) k s) [0..<length ?w]
             = rotate 1 (map (map_of (oriented_edge_map pole_mapper)) ?w)"
    by blast
  from s s1 have "s = 1" by simp
  with r o have "follow [1, 2, 0, 4, 3] 3 1 = Some 1"
    and "map (\<lambda>k. follow [1, 2, 0, 4, 3] k 1) [0..<3] = [Some 1, Some 2, Some 0]"
    by (simp_all add: pole_mapper_def eval_nat_numeral)
  with pole_build d w s1 show ?thesis by blast
qed

end
